theory Spec2Isabelle
  imports Complex_Main "HOL-Library.Word"
begin

section \<open>Bytes, slices and text\<close>

text \<open>
  A Python \<open>bytes\<close> value is a list of 8-bit words. \<open>data[a:b]\<close> with
  \<open>0 \<le> a\<close> is \<open>slice data a b\<close>: indices beyond the end are clamped, and the
  result is empty when \<open>b \<le> a\<close>. Indexing \<open>data[i]\<close> beyond the end raises
  IndexError; every such read in the model is guarded by a length test whose else
  branch is the exception.
\<close>

type_synonym byte = "8 word"
type_synonym bytes = "byte list"

datatype py_error = IndexError | ValueError | OSError

definition slice :: "'a list \<Rightarrow> nat \<Rightarrow> nat \<Rightarrow> 'a list" where
  "slice xs a b = take (b - a) (drop a xs)"

text \<open>Slice assignment \<open>p[a:b] = v\<close> on a bytearray (the array is resized when
  \<open>v\<close> has another length than the slice).\<close>

definition set_slice :: "'a list \<Rightarrow> nat \<Rightarrow> nat \<Rightarrow> 'a list \<Rightarrow> 'a list" where
  "set_slice p a b v = take a p @ v @ drop (max a b) p"

section \<open>Packet parsing (dhcp\_server.py, parse\_dhcp\_packet)\<close>

text \<open>
  The hostname is decoded by Python's \<open>bytes.decode('utf-8', errors='ignore')\<close>, a total
  library function; it is the parameter \<open>dec\<close> of the parser. The concrete examples
  below use \<open>ascii_decode\<close>, which agrees with it on 7-bit input.
\<close>

definition ascii_decode :: "bytes \<Rightarrow> string" where
  "ascii_decode bs = map (\<lambda>b. char_of (unat b)) (filter (\<lambda>b. b < 128) bs)"

text \<open>The two branches \<open>if options[i] == 53 ... elif options[i] == 12 ...\<close> of the
  loop body: the new values of \<open>message_type\<close> and \<open>hostname\<close>.\<close>

definition read_option ::
  "(bytes \<Rightarrow> 'h) \<Rightarrow> bytes \<Rightarrow> nat \<Rightarrow> int \<Rightarrow> 'h option \<Rightarrow> py_error + (int \<times> 'h option)" where
  "read_option dec options i message_type hostname =
     (if options ! i = 53 then
        (if i + 2 < length options then Inr (uint (options ! (i + 2)), hostname)
         else Inl IndexError)
      else if options ! i = 12 then
        (if i + 1 < length options then
           Inr (message_type,
                Some (dec (slice options (i + 2) (i + 2 + unat (options ! (i + 1))))))
         else Inl IndexError)
      else Inr (message_type, hostname))"

text \<open>The loop \<open>while i < len(options)\<close>.\<close>

function parse_options ::
  "(bytes \<Rightarrow> 'h) \<Rightarrow> bytes \<Rightarrow> nat \<Rightarrow> int \<Rightarrow> 'h option \<Rightarrow> py_error + (int \<times> 'h option)" where
  "parse_options dec options i message_type hostname =
     (if i < length options then
        (case read_option dec options i message_type hostname of
           Inl e \<Rightarrow> Inl e
         | Inr r \<Rightarrow>
             (if options ! i = 255 then Inr r
              else if i + 1 < length options then
                parse_options dec options (i + unat (options ! (i + 1)) + 2) (fst r) (snd r)
              else Inl IndexError))
      else Inr (message_type, hostname))"
  by pat_completeness auto
termination
  by (relation "measure (\<lambda>(dec, options, i, message_type, hostname). length options - i)") auto

declare parse_options.simps [simp del]

text \<open>The body of the \<open>try\<close> block, and the function with its \<open>except\<close> branch.\<close>

definition parse_dhcp_body ::
  "(bytes \<Rightarrow> 'h) \<Rightarrow> bytes \<Rightarrow> py_error + (int \<times> bytes \<times> bytes \<times> 'h option)" where
  "parse_dhcp_body dec data =
     (let client_mac = slice data 28 34;
          transaction_id = slice data 4 8;
          options = drop 240 data
      in case parse_options dec options 0 0 None of
           Inl e \<Rightarrow> Inl e
         | Inr (message_type, hostname) \<Rightarrow>
             Inr (message_type, client_mac, transaction_id, hostname))"

definition parse_dhcp_packet ::
  "(bytes \<Rightarrow> 'h) \<Rightarrow> bytes \<Rightarrow> int \<times> bytes \<times> bytes \<times> 'h option" where
  "parse_dhcp_packet dec data =
     (case parse_dhcp_body dec data of
        Inl e \<Rightarrow> (0, [], [], None)
      | Inr r \<Rightarrow> r)"

section \<open>Text renderings\<close>

text \<open>\<open>':'.join(f'{b:02x}' for b in client_mac)\<close>: the canonical string of a hardware
  address, the key of both tables of the store.\<close>

definition hex_digit :: "nat \<Rightarrow> char" where
  "hex_digit n = ''0123456789abcdef'' ! n"

definition hex2 :: "byte \<Rightarrow> string" where
  "hex2 b = [hex_digit (unat b div 16), hex_digit (unat b mod 16)]"

fun join :: "string \<Rightarrow> string list \<Rightarrow> string" where
  "join sep [] = []"
| "join sep [x] = x"
| "join sep (x # y # ys) = x @ sep @ join sep (y # ys)"

definition mac_str :: "bytes \<Rightarrow> string" where
  "mac_str client_mac = join '':'' (map hex2 client_mac)"

text \<open>\<open>str(ip)\<close> of an \<open>IPv4Address\<close>: the dotted quad of a 32-bit value, each octet
  in decimal without leading zeros.\<close>

definition digit_char :: "nat \<Rightarrow> char" where
  "digit_char n = ''0123456789'' ! n"

function str_nat :: "nat \<Rightarrow> string" where
  "str_nat n = (if n < 10 then [digit_char n] else str_nat (n div 10) @ [digit_char (n mod 10)])"
  by pat_completeness auto
termination
  by (relation "measure (\<lambda>n. n)") auto

declare str_nat.simps [simp del]

definition str_ip :: "nat \<Rightarrow> string" where
  "str_ip a = join ''.'' (map str_nat
     [a div 2 ^ 24 mod 256, a div 2 ^ 16 mod 256, a div 2 ^ 8 mod 256, a mod 256])"

text \<open>\<open>ipaddress.ip_network(n).hosts()\<close> for the network with integer address
  \<open>network_address\<close> and prefix length \<open>prefixlen\<close>: the addresses strictly between the
  network and the broadcast address, in ascending order; both addresses of a /31 and the
  single address of a /32.\<close>

definition hosts :: "nat \<Rightarrow> nat \<Rightarrow> nat list" where
  "hosts network_address prefixlen =
     (let broadcast = network_address + 2 ^ (32 - prefixlen) - 1
      in if prefixlen = 31 then [network_address, broadcast]
         else if prefixlen = 32 then [network_address]
         else [network_address + 1 ..< broadcast])"

text \<open>\<open>socket.inet_aton\<close> on the four-part decimal notation without leading zeros,
  the only notation the server produces. \<open>None\<close> stands for OSError. The library
  accepts further notations (fewer parts, octal and hexadecimal parts); they are not
  modelled, and every property below that depends on the result assumes it is
  \<open>Some\<close>.\<close>

fun split_on :: "char \<Rightarrow> string \<Rightarrow> string list" where
  "split_on c [] = [Nil]"
| "split_on c (x # xs) =
     (case split_on c xs of
        [] \<Rightarrow> [x # Nil]
      | p # ps \<Rightarrow> if x = c then [] # p # ps else (x # p) # ps)"

definition digit_val :: "char \<Rightarrow> nat option" where
  "digit_val c =
     (let n = of_char c :: nat in if 48 \<le> n \<and> n \<le> 57 then Some (n - 48) else None)"

fun dec_val :: "nat \<Rightarrow> string \<Rightarrow> nat option" where
  "dec_val acc [] = Some acc"
| "dec_val acc (c # cs) =
     (case digit_val c of None \<Rightarrow> None | Some d \<Rightarrow> dec_val (10 * acc + d) cs)"

definition octet :: "string \<Rightarrow> byte option" where
  "octet s =
     (if s = [] \<or> length s > 3 \<or> (length s > 1 \<and> hd s = CHR ''0'') then None
      else case dec_val 0 s of
             None \<Rightarrow> None
           | Some n \<Rightarrow> if n < 256 then Some (of_nat n) else None)"

definition inet_aton :: "string \<Rightarrow> bytes option" where
  "inet_aton s =
     (case map octet (split_on CHR ''.'' s) of
        [Some a, Some b, Some c, Some d] \<Rightarrow> Some [a, b, c, d]
      | _ \<Rightarrow> None)"

text \<open>\<open>struct.pack('!I', n)\<close> for \<open>0 \<le> n < 2 ^ 32\<close>: four bytes, most significant
  first.\<close>

definition pack_I :: "int \<Rightarrow> bytes" where
  "pack_I n = [word_of_int (n div 2 ^ 24), word_of_int (n div 2 ^ 16),
               word_of_int (n div 2 ^ 8), word_of_int n]"

section \<open>The lease store (dhcp\_db.py)\<close>

text \<open>
  The two tables, each with \<open>mac_address\<close> as primary key, are lists of rows
  (key, columns). Timestamps are POSIX seconds; the floating-point values of the
  source are taken as real numbers. Every operation that calls \<open>datetime.now()\<close>
  takes that reading as the argument \<open>now\<close>.
\<close>

record 'h lease =
  lease_ip :: string
  lease_hostname :: "'h option"
  lease_start :: real
  lease_end :: real
  last_seen :: real

record reservation =
  res_ip :: string
  res_hostname :: "string option"
  res_description :: "string option"

record 'h dhcp_db =
  leases :: "(string \<times> 'h lease) list"
  static_reservations :: "(string \<times> reservation) list"

text \<open>\<open>INSERT OR REPLACE\<close>: the row with the same key, if any, is deleted and the new
  row inserted.\<close>

definition add_lease ::
  "'h dhcp_db \<Rightarrow> string \<Rightarrow> string \<Rightarrow> int \<Rightarrow> 'h option \<Rightarrow> real \<Rightarrow> 'h dhcp_db" where
  "add_lease db mac_address ip_address lease_time hostname now =
     db\<lparr>leases := filter (\<lambda>(m, l). m \<noteq> mac_address) (leases db) @
          [(mac_address,
            \<lparr>lease_ip = ip_address, lease_hostname = hostname, lease_start = now,
             lease_end = now + of_int lease_time, last_seen = now\<rparr>)]\<rparr>"

definition get_lease :: "'h dhcp_db \<Rightarrow> string \<Rightarrow> real \<Rightarrow> 'h lease option" where
  "get_lease db mac_address now =
     map_option snd (find (\<lambda>(m, l). m = mac_address \<and> lease_end l > now) (leases db))"

definition add_static_reservation ::
  "'h dhcp_db \<Rightarrow> string \<Rightarrow> string \<Rightarrow> string option \<Rightarrow> string option \<Rightarrow> 'h dhcp_db" where
  "add_static_reservation db mac_address ip_address hostname description =
     db\<lparr>static_reservations :=
          filter (\<lambda>(m, r). m \<noteq> mac_address) (static_reservations db) @
          [(mac_address,
            \<lparr>res_ip = ip_address, res_hostname = hostname, res_description = description\<rparr>)]\<rparr>"

definition get_static_reservation :: "'h dhcp_db \<Rightarrow> string \<Rightarrow> reservation option" where
  "get_static_reservation db mac_address =
     map_option snd (find (\<lambda>(m, r). m = mac_address) (static_reservations db))"

definition get_all_leases :: "'h dhcp_db \<Rightarrow> real \<Rightarrow> 'h lease list" where
  "get_all_leases db now = map snd (filter (\<lambda>(m, l). lease_end l > now) (leases db))"

definition cleanup_expired_leases :: "'h dhcp_db \<Rightarrow> real \<Rightarrow> 'h dhcp_db" where
  "cleanup_expired_leases db now =
     db\<lparr>leases := filter (\<lambda>(m, l). \<not> lease_end l \<le> now) (leases db)\<rparr>"

section \<open>The server (dhcp\_server.py)\<close>

text \<open>The attributes set by \<open>DHCPServer.__init__\<close>. \<open>network_address\<close> and
  \<open>prefixlen\<close> are the parsed form of the attribute \<open>network\<close>
  (192.168.1.0/24); \<open>dhcp_options\<close> keeps the insertion order of the dictionary,
  with the values of \<open>inet_aton('255.255.255.0')\<close>, \<open>inet_aton('192.168.1.1')\<close>
  and \<open>inet_aton('8.8.8.8')\<close> written out (lemma \<open>init_option_values\<close>).\<close>

record config =
  server_ip :: string
  network_address :: nat
  prefixlen :: nat
  excluded_ips :: "string set"
  lease_time :: int
  dhcp_options :: "(int \<times> bytes) list"

definition DHCPServer_init :: config where
  "DHCPServer_init =
     \<lparr>server_ip = ''192.168.1.1'',
      network_address = 3232235776,
      prefixlen = 24,
      excluded_ips = {''192.168.1.0'', ''192.168.1.1'', ''192.168.1.255''},
      lease_time = 3600,
      dhcp_options =
        [(1, [255, 255, 255, 0]),
         (3, [192, 168, 1, 1]),
         (6, [8, 8, 8, 8]),
         (42, [8, 8, 8, 8]),
         (51, pack_I 3600)]\<rparr>"

text \<open>The readings of the clock taken while one datagram is handled, in the order
  of the calls: by \<open>get_lease\<close>, \<open>cleanup_expired_leases\<close>, \<open>get_all_leases\<close> and
  \<open>add_lease\<close>.\<close>

record ticks =
  t_get_lease :: real
  t_cleanup :: real
  t_get_all :: real
  t_add_lease :: real

text \<open>\<open>_get_available_ip\<close>: the new store and the returned address
  (\<open>None\<close> when the pool is exhausted).\<close>

definition get_available_ip ::
  "config \<Rightarrow> 'h dhcp_db \<Rightarrow> string \<Rightarrow> ticks \<Rightarrow> 'h dhcp_db \<times> string option" where
  "get_available_ip cfg db client_mac tk =
     (case get_static_reservation db client_mac of
        Some static_res \<Rightarrow> (db, Some (res_ip static_res))
      | None \<Rightarrow>
          (case get_lease db client_mac (t_get_lease tk) of
             Some existing_lease \<Rightarrow> (db, Some (lease_ip existing_lease))
           | None \<Rightarrow>
               (let db' = cleanup_expired_leases db (t_cleanup tk);
                    active_leases = set (map lease_ip (get_all_leases db' (t_get_all tk)))
                in (db', find (\<lambda>ip_str. ip_str \<notin> excluded_ips cfg \<and> ip_str \<notin> active_leases)
                           (map str_ip (hosts (network_address cfg) (prefixlen cfg)))))))"

text \<open>The loop over \<open>self.dhcp_options.items()\<close>; \<open>bytearray.extend\<close> raises
  ValueError on an integer outside \<open>range(256)\<close>.\<close>

fun extend_options :: "(int \<times> bytes) list \<Rightarrow> py_error + bytes" where
  "extend_options [] = Inr []"
| "extend_options ((opt_code, opt_value) # rest) =
     (if 0 \<le> opt_code \<and> opt_code < 256 \<and> length opt_value < 256 then
        (case extend_options rest of
           Inl e \<Rightarrow> Inl e
         | Inr bs \<Rightarrow> Inr ([word_of_int opt_code, of_nat (length opt_value)] @ opt_value @ bs))
      else Inl ValueError)"

text \<open>The body of the \<open>try\<close> block of \<open>create_dhcp_packet\<close>, and the function with
  its \<open>except\<close> branch, which returns the empty byte string.\<close>

definition create_dhcp_body ::
  "config \<Rightarrow> int \<Rightarrow> bytes \<Rightarrow> bytes \<Rightarrow> string \<Rightarrow> py_error + bytes" where
  "create_dhcp_body cfg message_type client_mac transaction_id your_ip =
     (let packet = (replicate 240 0)[0 := 2, 1 := 1, 2 := 6, 3 := 0];
          packet = set_slice packet 4 8 transaction_id
      in case inet_aton your_ip of
           None \<Rightarrow> Inl OSError
         | Some your_ip_bytes \<Rightarrow>
             (let packet = set_slice packet 16 20 your_ip_bytes
              in case inet_aton (server_ip cfg) of
                   None \<Rightarrow> Inl OSError
                 | Some server_ip_bytes \<Rightarrow>
                     (let packet = set_slice packet 20 24 server_ip_bytes;
                          packet = set_slice packet 28 34 client_mac;
                          packet = set_slice packet 236 240 (pack_I 0x63825363)
                      in if 0 \<le> message_type \<and> message_type < 256 then
                           (case extend_options (dhcp_options cfg) of
                              Inl e \<Rightarrow> Inl e
                            | Inr configured \<Rightarrow>
                                Inr (packet @ [53, 1, word_of_int message_type] @ [54, 4] @
                                     server_ip_bytes @ configured @ [255]))
                         else Inl ValueError)))"

definition create_dhcp_packet ::
  "config \<Rightarrow> int \<Rightarrow> bytes \<Rightarrow> bytes \<Rightarrow> string \<Rightarrow> bytes" where
  "create_dhcp_packet cfg message_type client_mac transaction_id your_ip =
     (case create_dhcp_body cfg message_type client_mac transaction_id your_ip of
        Inl e \<Rightarrow> []
      | Inr final_packet \<Rightarrow> final_packet)"

text \<open>A handler returns the new store and the datagrams it passed to
  \<open>socket.sendto\<close>, each with its destination.\<close>

type_synonym datagram = "bytes \<times> string \<times> nat"

abbreviation DHCPDISCOVER :: int where "DHCPDISCOVER \<equiv> 1"
abbreviation DHCPOFFER :: int where "DHCPOFFER \<equiv> 2"
abbreviation DHCPREQUEST :: int where "DHCPREQUEST \<equiv> 3"
abbreviation DHCPACK :: int where "DHCPACK \<equiv> 5"
abbreviation DHCPRELEASE :: int where "DHCPRELEASE \<equiv> 7"

text \<open>\<open>if reply: sendto(reply, ('255.255.255.255', 68))\<close>.\<close>

definition send_reply :: "bytes \<Rightarrow> datagram list" where
  "send_reply reply = (if reply \<noteq> [] then [(reply, ''255.255.255.255'', 68)] else [])"

definition handle_discover ::
  "config \<Rightarrow> 'h dhcp_db \<Rightarrow> bytes \<Rightarrow> bytes \<Rightarrow> 'h option \<Rightarrow> ticks \<Rightarrow> 'h dhcp_db \<times> datagram list"
  where
  "handle_discover cfg db client_mac transaction_id hostname tk =
     (case get_available_ip cfg db (mac_str client_mac) tk of
        (db', None) \<Rightarrow> (db', [])
      | (db', Some ip_to_offer) \<Rightarrow>
          if ip_to_offer = [] then (db', [])
          else (db', send_reply
                       (create_dhcp_packet cfg DHCPOFFER client_mac transaction_id ip_to_offer)))"

definition handle_request ::
  "config \<Rightarrow> 'h dhcp_db \<Rightarrow> bytes \<Rightarrow> bytes \<Rightarrow> 'h option \<Rightarrow> ticks \<Rightarrow> 'h dhcp_db \<times> datagram list"
  where
  "handle_request cfg db client_mac transaction_id hostname tk =
     (case get_available_ip cfg db (mac_str client_mac) tk of
        (db', None) \<Rightarrow> (db', [])
      | (db', Some ip_to_assign) \<Rightarrow>
          if ip_to_assign = [] then (db', [])
          else (add_lease db' (mac_str client_mac) ip_to_assign (lease_time cfg) hostname
                  (t_add_lease tk),
                send_reply
                  (create_dhcp_packet cfg DHCPACK client_mac transaction_id ip_to_assign)))"

definition handle_client ::
  "(bytes \<Rightarrow> 'h) \<Rightarrow> config \<Rightarrow> 'h dhcp_db \<Rightarrow> bytes \<Rightarrow> ticks \<Rightarrow> 'h dhcp_db \<times> datagram list"
  where
  "handle_client dec cfg db data tk =
     (case parse_dhcp_packet dec data of
        (message_type, client_mac, transaction_id, hostname) \<Rightarrow>
          if message_type = DHCPDISCOVER then
            handle_discover cfg db client_mac transaction_id hostname tk
          else if message_type = DHCPREQUEST then
            handle_request cfg db client_mac transaction_id hostname tk
          else if message_type = DHCPRELEASE then (db, [])
          else (db, []))"

section \<open>Example stores, clocks and packets\<close>

text \<open>A store in which the hardware address \<open>aa:bb:cc:dd:ee:ff\<close> has both a
  dynamic lease (192.168.1.3, valid until 3600) and a static reservation
  (192.168.1.50).\<close>

definition scenario3_db :: "string dhcp_db" where
  "scenario3_db =
     \<lparr>leases = [(''aa:bb:cc:dd:ee:ff'',
                 \<lparr>lease_ip = ''192.168.1.3'', lease_hostname = None, lease_start = 0,
                  lease_end = 3600, last_seen = 0\<rparr>)],
      static_reservations =
        [(''aa:bb:cc:dd:ee:ff'',
          \<lparr>res_ip = ''192.168.1.50'', res_hostname = None, res_description = None\<rparr>)]\<rparr>"

text \<open>A handler run in which every clock reading is \<open>t\<close>.\<close>

definition at_time :: "real \<Rightarrow> ticks" where
  "at_time t = \<lparr>t_get_lease = t, t_cleanup = t, t_get_all = t, t_add_lease = t\<rparr>"

text \<open>A datagram whose options region ends inside option 53.\<close>

definition truncated_packet :: bytes where
  "truncated_packet = replicate 240 0 @ [53, 1]"

text \<open>An empty store; a store whose only lease ended at time 50; a store with no lease
  and a static reservation of 192.168.1.2, the first address of the dynamic pool.\<close>

definition empty_db :: "string dhcp_db" where
  "empty_db = \<lparr>leases = [], static_reservations = []\<rparr>"

definition expired_db :: "string dhcp_db" where
  "expired_db =
     \<lparr>leases = [(''aa:bb:cc:dd:ee:02'',
                 \<lparr>lease_ip = ''192.168.1.2'', lease_hostname = None, lease_start = 0,
                  lease_end = 50, last_seen = 0\<rparr>)],
      static_reservations = []\<rparr>"

definition reserved_db :: "string dhcp_db" where
  "reserved_db =
     \<lparr>leases = [],
      static_reservations =
        [(''aa:bb:cc:dd:ee:ff'',
          \<lparr>res_ip = ''192.168.1.2'', res_hostname = None, res_description = None\<rparr>)]\<rparr>"

definition mac_01 :: bytes where
  "mac_01 = [0xaa, 0xbb, 0xcc, 0xdd, 0xee, 0x01]"

definition mac_ff :: bytes where
  "mac_ff = [0xaa, 0xbb, 0xcc, 0xdd, 0xee, 0xff]"

definition xid_1 :: bytes where
  "xid_1 = [0x12, 0x34, 0x56, 0x78]"

section \<open>Notions of the specification\<close>

text \<open>The clock readings of one handler run do not go backwards.\<close>

definition ticks_ordered :: "ticks \<Rightarrow> bool" where
  "ticks_ordered tk =
     (t_get_lease tk \<le> t_cleanup tk \<and> t_cleanup tk \<le> t_get_all tk \<and>
      t_get_all tk \<le> t_add_lease tk)"

text \<open>Uniqueness at time \<open>t\<close>: two rows of different hardware addresses whose
  \<open>lease_end\<close> is after \<open>t\<close> have different addresses.\<close>

definition unique_active :: "(string \<times> 'h lease) list \<Rightarrow> real \<Rightarrow> bool" where
  "unique_active rows t =
     (\<forall>(m1, l1) \<in> set rows. \<forall>(m2, l2) \<in> set rows.
        m1 \<noteq> m2 \<and> lease_end l1 > t \<and> lease_end l2 > t \<longrightarrow> lease_ip l1 \<noteq> lease_ip l2)"

text \<open>The server handling a sequence of datagrams one after the other, each with the
  clock readings of its handler; the sequence is chronological from time \<open>t\<close> on when
  no reading is earlier than the one before it.\<close>

fun run :: "(bytes \<Rightarrow> 'h) \<Rightarrow> config \<Rightarrow> 'h dhcp_db \<Rightarrow> (bytes \<times> ticks) list \<Rightarrow> 'h dhcp_db" where
  "run dec cfg db [] = db"
| "run dec cfg db ((data, tk) # events) =
     run dec cfg (fst (handle_client dec cfg db data tk)) events"

fun chronological :: "real \<Rightarrow> (bytes \<times> ticks) list \<Rightarrow> bool" where
  "chronological t [] = True"
| "chronological t ((data, tk) # events) =
     (t \<le> t_get_lease tk \<and> ticks_ordered tk \<and> chronological (t_add_lease tk) events)"

fun last_tick :: "real \<Rightarrow> (bytes \<times> ticks) list \<Rightarrow> real" where
  "last_tick t [] = t"
| "last_tick t ((data, tk) # events) = last_tick (t_add_lease tk) events"

text \<open>The key under which the handlers look up the sender of a datagram.\<close>

definition sender :: "(bytes \<Rightarrow> 'h) \<Rightarrow> bytes \<Rightarrow> string" where
  "sender dec data = mac_str (fst (snd (parse_dhcp_packet dec data)))"

section \<open>The wire format of the options\<close>

text \<open>The options region as the clients of the repository build it
  (dhcp\_client.py, \<open>create_packet\<close>): each option is its tag, one length byte and
  the value bytes; tag 255 ends the region.\<close>

definition tlv :: "byte \<times> bytes \<Rightarrow> bytes" where
  "tlv opt = fst opt # of_nat (length (snd opt)) # snd opt"

definition encode_options :: "(byte \<times> bytes) list \<Rightarrow> bytes" where
  "encode_options opts = concat (map tlv opts) @ [255]"

text \<open>The fixed 240 bytes of a client datagram (dhcp\_client.py, \<open>create_packet\<close>):
  op 1, htype 1, hlen 6, hops 0, the transaction id at offset 4, the hardware address
  at offset 28 and the magic cookie at offset 236.\<close>

definition client_header :: "bytes \<Rightarrow> bytes \<Rightarrow> bytes" where
  "client_header transaction_id client_mac =
     (let packet = (replicate 240 0)[0 := 1, 1 := 1, 2 := 6, 3 := 0];
          packet = set_slice packet 4 8 transaction_id;
          packet = set_slice packet 28 34 client_mac
      in set_slice packet 236 240 (pack_I 0x63825363))"

text \<open>An option is well formed when its tag is not the end tag, its value fits the
  length byte, and a message-type option has a value.\<close>

definition wf_option :: "byte \<times> bytes \<Rightarrow> bool" where
  "wf_option opt =
     (fst opt \<noteq> 255 \<and> length (snd opt) < 256 \<and> \<not> (fst opt = 53 \<and> snd opt = []))"

text \<open>What one option contributes to the pair (message type, hostname).\<close>

definition apply_option ::
  "(bytes \<Rightarrow> 'h) \<Rightarrow> int \<times> 'h option \<Rightarrow> byte \<times> bytes \<Rightarrow> int \<times> 'h option" where
  "apply_option dec found opt =
     (if fst opt = 53 then (case snd opt of [] \<Rightarrow> found | b # bs \<Rightarrow> (uint b, snd found))
      else if fst opt = 12 then (fst found, Some (dec (snd opt)))
      else found)"

text \<open>The value of the last option with tag \<open>t\<close>, if there is one.\<close>

definition last_option :: "byte \<Rightarrow> (byte \<times> bytes) list \<Rightarrow> bytes option" where
  "last_option t opts =
     (let found = filter (\<lambda>opt. fst opt = t) opts
      in if found = [] then None else Some (snd (last found)))"

definition first_byte :: "bytes \<Rightarrow> int" where
  "first_byte v = (case v of [] \<Rightarrow> 0 | b # bs \<Rightarrow> uint b)"

text \<open>The option walk overruns the region: reading tag-length-value from the front,
  with every tag other than 255 (tag 0 too) taken to have a length byte, it meets a tag
  other than 255 with no length byte after it, or tag 53 with no byte after its length
  byte. Value bytes missing at the end of the last option are not an overrun.\<close>

function overruns :: "bytes \<Rightarrow> bool" where
  "overruns [] = False"
| "overruns [t] = (t \<noteq> 255)"
| "overruns (t # l # vs) =
     (if t = 53 \<and> vs = [] then True
      else if t = 255 then False
      else overruns (drop (unat l) vs))"
  by pat_completeness auto
termination
  by (relation "measure length") auto

text \<open>Example datagrams: a REQUEST and a DISCOVER of a client; a DISCOVER whose
  cookie is zero; a DISCOVER with a pad byte in front of option 53; two REQUESTs that
  differ in the requested address (option 50) and the server identifier (option 54)
  only.\<close>

definition request_packet :: "bytes \<Rightarrow> bytes" where
  "request_packet client_mac = client_header xid_1 client_mac @ encode_options [(53, [3])]"

definition discover_packet :: bytes where
  "discover_packet = client_header xid_1 mac_01 @ [53, 1, 1, 255]"

definition bad_cookie_packet :: bytes where
  "bad_cookie_packet = set_slice discover_packet 236 240 [0, 0, 0, 0]"

definition padded_packet :: bytes where
  "padded_packet = client_header xid_1 mac_01 @ [0, 53, 1, 1, 255]"

definition request_for_2 :: bytes where
  "request_for_2 = client_header xid_1 mac_01 @
     encode_options [(53, [3]), (50, [192, 168, 1, 2]), (54, [192, 168, 1, 1])]"

definition request_for_9 :: bytes where
  "request_for_9 = client_header xid_1 mac_01 @
     encode_options [(53, [3]), (50, [192, 168, 1, 9]), (54, [10, 0, 0, 1])]"

section \<open>Verified properties\<close>

subsection \<open>Evaluation of the configured server\<close>

lemma str_ip_1: "str_ip 3232235777 = ''192.168.1.1''"
  by (simp add: str_ip_def str_nat.simps digit_char_def)

lemma str_ip_2: "str_ip 3232235778 = ''192.168.1.2''"
  by (simp add: str_ip_def str_nat.simps digit_char_def)

lemma hosts_init:
  "hosts (network_address DHCPServer_init) (prefixlen DHCPServer_init) =
     3232235777 # 3232235778 # [3232235779..<3232236031]"
  by (simp add: hosts_def DHCPServer_init_def upt_conv_Cons del: upt_rec_numeral)

lemma excluded_init:
  "excluded_ips DHCPServer_init = {''192.168.1.0'', ''192.168.1.1'', ''192.168.1.255''}"
  by (simp add: DHCPServer_init_def)

lemma mac_str_01: "mac_str mac_01 = ''aa:bb:cc:dd:ee:01''"
  by (simp add: mac_str_def mac_01_def hex2_def hex_digit_def)

lemma mac_str_ff: "mac_str mac_ff = ''aa:bb:cc:dd:ee:ff''"
  by (simp add: mac_str_def mac_ff_def hex2_def hex_digit_def)

lemma inet_aton_2: "inet_aton ''192.168.1.2'' = Some [192, 168, 1, 2]"
  by (simp add: inet_aton_def octet_def digit_val_def)

lemma inet_aton_server: "inet_aton (server_ip DHCPServer_init) = Some [192, 168, 1, 1]"
  by (simp add: DHCPServer_init_def inet_aton_def octet_def digit_val_def)

lemma init_option_values:
  "inet_aton ''255.255.255.0'' = Some [255, 255, 255, 0]"
  "inet_aton ''192.168.1.1'' = Some [192, 168, 1, 1]"
  "inet_aton ''8.8.8.8'' = Some [8, 8, 8, 8]"
  "str_ip (network_address DHCPServer_init) = ''192.168.1.0''"
  by (simp_all add: inet_aton_def octet_def digit_val_def DHCPServer_init_def str_ip_def
      str_nat.simps digit_char_def)

lemma extend_options_init:
  "extend_options (dhcp_options DHCPServer_init) =
     Inr [1, 4, 255, 255, 255, 0, 3, 4, 192, 168, 1, 1, 6, 4, 8, 8, 8, 8,
          42, 4, 8, 8, 8, 8, 51, 4, 0, 0, 14, 16]"
  by (simp add: DHCPServer_init_def pack_I_def)

text \<open>With no reservation and no lease for the client and 192.168.1.2 not held by an
  active lease, the configured server allocates 192.168.1.2.\<close>

lemma alloc_init_first:
  assumes "get_static_reservation db mac = None"
    and "get_lease db mac (t_get_lease tk) = None"
    and "''192.168.1.2'' \<notin> set (map lease_ip
           (get_all_leases (cleanup_expired_leases db (t_cleanup tk)) (t_get_all tk)))"
  shows "get_available_ip DHCPServer_init db mac tk =
           (cleanup_expired_leases db (t_cleanup tk), Some ''192.168.1.2'')"
  using assms
  by (simp add: get_available_ip_def Let_def hosts_init str_ip_1 str_ip_2 excluded_init)

lemma create_init_nonempty:
  assumes "inet_aton ip = Some y" and "0 \<le> mt" and "mt < 256"
  shows "create_dhcp_packet DHCPServer_init mt mac xid ip \<noteq> []"
  using assms
  by (simp add: create_dhcp_packet_def create_dhcp_body_def Let_def inet_aton_server
      extend_options_init)

subsection \<open>The store and the allocator\<close>

lemma find_other_keys:
  "find (\<lambda>(m, l). m = k \<and> P l) (filter (\<lambda>(m, l). m \<noteq> k) rows) = None"
  by (induction rows) auto

lemma map_of_other_keys: "map_of (filter (\<lambda>(m, l). m \<noteq> k) rows) k = None"
  by (induction rows) auto

lemma find_append_None: "find P xs = None \<Longrightarrow> find P (xs @ ys) = find P ys"
  by (induction xs) (auto split: if_splits)

lemma map_of_add_lease:
  "map_of (leases (add_lease db mac ip lt hn now)) mac =
     Some \<lparr>lease_ip = ip, lease_hostname = hn, lease_start = now,
           lease_end = now + of_int lt, last_seen = now\<rparr>"
  by (simp add: add_lease_def map_of_other_keys map_add_def)

lemma get_lease_add_lease:
  assumes "t < now + of_int lt"
  shows "get_lease (add_lease db mac ip lt hn now) mac t =
     Some \<lparr>lease_ip = ip, lease_hostname = hn, lease_start = now,
           lease_end = now + of_int lt, last_seen = now\<rparr>"
  using assms by (simp add: get_lease_def add_lease_def find_append_None [OF find_other_keys])

lemma get_lease_SomeD:
  "get_lease db mac t = Some l \<Longrightarrow> (mac, l) \<in> set (leases db) \<and> lease_end l > t"
  by (auto simp: get_lease_def find_Some_iff in_set_conv_nth)

lemma add_lease_statics:
  "static_reservations (add_lease db mac ip lt hn now) = static_reservations db"
  by (simp add: add_lease_def)

lemma get_available_ip_statics:
  "static_reservations (fst (get_available_ip cfg db mac tk)) = static_reservations db"
  by (simp add: get_available_ip_def cleanup_expired_leases_def Let_def
      split: option.splits)

lemma get_available_ip_leases:
  "leases (fst (get_available_ip cfg db mac tk)) =
     (if get_static_reservation db mac = None \<and> get_lease db mac (t_get_lease tk) = None
      then filter (\<lambda>(m, l). \<not> lease_end l \<le> t_cleanup tk) (leases db)
      else leases db)"
  by (simp add: get_available_ip_def cleanup_expired_leases_def Let_def
      split: option.splits)

lemma active_ips_iff:
  "s \<in> set (map lease_ip (get_all_leases db t)) \<longleftrightarrow>
     (\<exists>m l. (m, l) \<in> set (leases db) \<and> lease_end l > t \<and> lease_ip l = s)"
  by (force simp: get_all_leases_def)

lemma hosts_ascending: "sorted_wrt (<) (hosts n p)"
  by (simp add: hosts_def Let_def)

lemma find_map_first:
  fixes xs :: "nat list"
  assumes "sorted_wrt (<) xs" and "find P (map f xs) = Some y"
  shows "\<exists>x \<in> set xs. y = f x \<and> P (f x) \<and> (\<forall>x' \<in> set xs. x' < x \<longrightarrow> \<not> P (f x'))"
  using assms
proof (induction xs)
  case Nil
  then show ?case by simp
next
  case (Cons a xs)
  show ?case
  proof (cases "P (f a)")
    case True
    with Cons.prems show ?thesis by fastforce
  next
    case False
    with Cons.prems have "find P (map f xs) = Some y" and "sorted_wrt (<) xs" by simp_all
    from Cons.IH [OF this(2) this(1)] obtain x where
      x: "x \<in> set xs" "y = f x" "P (f x)" "\<forall>x' \<in> set xs. x' < x \<longrightarrow> \<not> P (f x')"
      by blast
    with False show ?thesis by auto
  qed
qed


subsection \<open>Headers and the option walk\<close>

lemma update_first_four:
  "(a0 # a1 # a2 # a3 # rest)[0 := a, 1 := b, 2 := c, 3 := d] = a # b # c # d # rest"
  by (simp add: eval_nat_numeral)

lemma fixed_fields:
  "(replicate 240 (0 :: byte))[0 := a, 1 := b, 2 := c, 3 := d] = [a, b, c, d] @ replicate 236 0"
proof -
  have "replicate 240 (0 :: byte) = 0 # 0 # 0 # 0 # replicate 236 0"
    by (simp add: eval_nat_numeral)
  then show ?thesis
    by (simp only: update_first_four) simp
qed

lemma zeros_4: "replicate 4 (0 :: byte) = [0, 0, 0, 0]"
  by (simp add: eval_nat_numeral)

lemma client_header_bytes:
  assumes "length transaction_id = 4" and "length client_mac = 6"
  shows "client_header transaction_id client_mac =
           [1, 1, 6, 0] @ transaction_id @ replicate 20 0 @ client_mac @ replicate 202 0 @
           [0x63, 0x82, 0x53, 0x63]"
  unfolding client_header_def Let_def fixed_fields
  using assms by (simp add: set_slice_def pack_I_def)

lemma client_header_fields:
  assumes "length transaction_id = 4" and "length client_mac = 6"
  shows "length (client_header transaction_id client_mac) = 240"
    and "slice (client_header transaction_id client_mac @ options) 4 8 = transaction_id"
    and "slice (client_header transaction_id client_mac @ options) 28 34 = client_mac"
    and "drop 240 (client_header transaction_id client_mac @ options) = options"
  using assms by (simp_all add: client_header_bytes slice_def)

lemma unat_length: "n < 256 \<Longrightarrow> unat (of_nat n :: byte) = n"
  by (simp add: unat_of_nat)

lemma parse_options_overruns:
  "(\<exists>e. parse_options dec opts i mt hn = Inl e) \<longleftrightarrow> overruns (drop i opts)"
proof (induction dec opts i mt hn rule: parse_options.induct)
  case (1 dec opts i mt hn)
  show ?case
  proof (cases "i < length opts")
    case False
    then show ?thesis by (simp add: parse_options.simps)
  next
    case True
    note i = True
    show ?thesis
    proof (cases "i + 1 < length opts")
      case False
      with i have d: "drop i opts = [opts ! i]"
        by (metis Cons_nth_drop_Suc Suc_eq_plus1 drop_all not_less)
      from False i show ?thesis
        by (auto simp: parse_options.simps [of dec opts i] read_option_def d)
    next
      case True
      with i have d: "drop i opts = opts ! i # opts ! (i + 1) # drop (i + 2) opts"
        by (metis Cons_nth_drop_Suc Suc_eq_plus1 add_2_eq_Suc')
      have dd: "drop (unat (opts ! (i + 1))) (drop (i + 2) opts) =
                drop (i + unat (opts ! (i + 1)) + 2) opts"
        by (simp add: add.commute add.left_commute)
      have e: "drop (i + 2) opts = [] \<longleftrightarrow> \<not> i + 2 < length opts"
        by auto
      show ?thesis
      proof (cases "read_option dec opts i mt hn")
        case (Inl a)
        then have "opts ! i = 53 \<and> \<not> i + 2 < length opts"
          using True by (auto simp: read_option_def split: if_splits)
        with Inl i show ?thesis
          by (simp add: parse_options.simps [of dec opts i] d e)
      next
        case (Inr r)
        then have ok: "\<not> (opts ! i = 53 \<and> \<not> i + 2 < length opts)"
          by (auto simp: read_option_def split: if_splits)
        show ?thesis
        proof (cases "opts ! i = 255")
          case True
          with Inr i show ?thesis
            by (simp add: parse_options.simps [of dec opts i] d)
        next
          case False
          from "1.IH" [OF i Inr False True]
          have "(\<exists>e. parse_options dec opts (i + unat (opts ! (i + 1)) + 2) (fst r) (snd r) = Inl e)
                 \<longleftrightarrow> overruns (drop (i + unat (opts ! (i + 1)) + 2) opts)" .
          with Inr i True False ok show ?thesis
            by (auto simp add: parse_options.simps [of dec opts i] d dd e add.commute)
        qed
      qed
    qed
  qed
qed

lemma read_option_tlv:
  assumes len: "length v < 256" and v: "t = 53 \<Longrightarrow> v \<noteq> []"
  shows "read_option dec (pre @ t # of_nat (length v) # v @ tail) (length pre) mt hn =
           Inr (apply_option dec (mt, hn) (t, v))"
proof (cases "t = 53")
  case True
  with v obtain b bs where "v = b # bs" by (cases v) auto
  with True show ?thesis
    by (simp add: read_option_def apply_option_def nth_append)
next
  case False
  have "slice (pre @ t' # of_nat (length v) # v @ tail) (length pre + 2)
          (length pre + 2 + unat (of_nat (length v) :: byte)) = v" for t'
    by (simp add: slice_def unat_length [OF len])
  then show ?thesis
    using False by (simp add: read_option_def apply_option_def nth_append)
qed

lemma parse_options_tlv:
  assumes t: "t \<noteq> 255" and len: "length v < 256" and v: "t = 53 \<Longrightarrow> v \<noteq> []"
  shows "parse_options dec (pre @ t # of_nat (length v) # v @ tail) (length pre) mt hn =
         parse_options dec (pre @ t # of_nat (length v) # v @ tail) (length pre + length v + 2)
           (fst (apply_option dec (mt, hn) (t, v))) (snd (apply_option dec (mt, hn) (t, v)))"
  using t
  by (subst parse_options.simps)
     (simp add: read_option_tlv [OF len v] nth_append unat_length [OF len])

lemma parse_walk:
  assumes "list_all wf_option os"
  shows "parse_options dec (pre @ concat (map tlv os) @ 255 # rest) (length pre) mt hn =
           Inr (foldl (apply_option dec) (mt, hn) os)"
  using assms
proof (induction os arbitrary: pre mt hn)
  case Nil
  show ?case
    by (simp add: parse_options.simps [of dec _ "length pre"] read_option_def)
next
  case (Cons opt os)
  obtain t v where opt: "opt = (t, v)" by (cases opt)
  from Cons.prems have wf: "list_all wf_option os" and wfo: "wf_option opt"
    by simp_all
  from wfo opt have t: "t \<noteq> 255" and len: "length v < 256"
    and v: "t = 53 \<Longrightarrow> v \<noteq> []"
    by (auto simp: wf_option_def)
  let ?tail = "concat (map tlv os) @ 255 # rest"
  let ?opts = "pre @ t # of_nat (length v) # v @ ?tail"
  let ?pre = "pre @ tlv opt"
  have one: "tlv (t, v) = t # of_nat (length v) # v"
    by (simp add: tlv_def)
  have same: "?opts = ?pre @ ?tail"
    by (simp add: opt one)
  have nxt: "length pre + length v + 2 = length (pre @ tlv (t, v))"
    by (simp add: tlv_def)
  have "parse_options dec ?opts (length pre) mt hn =
          parse_options dec ?opts (length ?pre) (fst (apply_option dec (mt, hn) opt))
            (snd (apply_option dec (mt, hn) opt))"
    unfolding opt nxt [symmetric] by (rule parse_options_tlv [OF t len v])
  also have "\<dots> = Inr (foldl (apply_option dec) (apply_option dec (mt, hn) opt) os)"
    unfolding same by (simp only: prod.collapse Cons.IH [OF wf])
  finally show ?case
    by (simp add: opt one)
qed

lemma foldl_apply_option:
  assumes "list_all wf_option os"
  shows "foldl (apply_option dec) (mt, hn) os =
           (case last_option 53 os of None \<Rightarrow> mt | Some v \<Rightarrow> first_byte v,
            case last_option 12 os of None \<Rightarrow> hn | Some v \<Rightarrow> Some (dec v))"
  using assms
proof (induction os rule: rev_induct)
  case Nil
  show ?case by (simp add: last_option_def)
next
  case (snoc opt os)
  then have wf: "wf_option opt" and IH: "foldl (apply_option dec) (mt, hn) os =
           (case last_option 53 os of None \<Rightarrow> mt | Some v \<Rightarrow> first_byte v,
            case last_option 12 os of None \<Rightarrow> hn | Some v \<Rightarrow> Some (dec v))"
    by simp_all
  have keep: "last_option t (os @ [opt]) = (if fst opt = t then Some (snd opt) else last_option t os)"
    for t
    by (simp add: last_option_def)
  have "foldl (apply_option dec) (mt, hn) (os @ [opt]) =
          apply_option dec (foldl (apply_option dec) (mt, hn) os) opt"
    by simp
  also have "\<dots> = apply_option dec
           (case last_option 53 os of None \<Rightarrow> mt | Some v \<Rightarrow> first_byte v,
            case last_option 12 os of None \<Rightarrow> hn | Some v \<Rightarrow> Some (dec v)) opt"
    by (simp only: IH)
  also have "\<dots> =
           (case last_option 53 (os @ [opt]) of None \<Rightarrow> mt | Some v \<Rightarrow> first_byte v,
            case last_option 12 (os @ [opt]) of None \<Rightarrow> hn | Some v \<Rightarrow> Some (dec v))"
    using wf
    by (auto simp add: keep apply_option_def wf_option_def first_byte_def split: list.splits)
  finally show ?case .
qed

lemma parse_client_packet:
  assumes "length transaction_id = 4" and "length client_mac = 6"
    and "parse_options dec options 0 0 None = Inr (mt, hn)"
  shows "parse_dhcp_packet dec (client_header transaction_id client_mac @ options) =
           (mt, client_mac, transaction_id, hn)"
  using assms(3)
  by (simp add: parse_dhcp_packet_def parse_dhcp_body_def client_header_fields [OF assms(1,2)])

lemma length_mac_01: "length mac_01 = 6" and length_mac_ff: "length mac_ff = 6"
  and length_xid_1: "length xid_1 = 4"
  by (simp_all add: mac_01_def mac_ff_def xid_1_def)

lemma parse_request_packet:
  assumes "length client_mac = 6"
  shows "parse_dhcp_packet dec (request_packet client_mac) = (3, client_mac, xid_1, None)"
proof -
  have "parse_options dec ([] @ concat (map tlv [(53, [3])]) @ 255 # []) (length ([] :: bytes)) 0 None
          = Inr (foldl (apply_option dec) (0, None) [(53, [3])])"
    by (rule parse_walk) (simp add: wf_option_def)
  then have "parse_options dec (encode_options [(53, [3])]) 0 0 None = Inr (3, None)"
    by (simp add: encode_options_def apply_option_def)
  from parse_client_packet [OF length_xid_1 assms this] show ?thesis
    by (simp add: request_packet_def)
qed

subsection \<open>Static reservations\<close>

text \<open>
  Claim C2. When the store holds a static reservation for a hardware address, the
  allocator returns the reserved address for it and leaves the store as it is, whatever
  the dynamic leases, the excluded set, the pool and the clock are.
\<close>

theorem static_precedence:
  assumes "get_static_reservation db mac = Some r"
  shows "get_available_ip cfg db mac tk = (db, Some (res_ip r))"
  using assms by (simp add: get_available_ip_def)

theorem static_precedence_witness:
  "get_static_reservation scenario3_db ''aa:bb:cc:dd:ee:ff'' =
     Some \<lparr>res_ip = ''192.168.1.50'', res_hostname = None, res_description = None\<rparr> \<and>
   get_lease scenario3_db ''aa:bb:cc:dd:ee:ff'' 100 \<noteq> None \<and>
   get_available_ip DHCPServer_init scenario3_db ''aa:bb:cc:dd:ee:ff'' (at_time 100) =
     (scenario3_db, Some ''192.168.1.50'')"
proof -
  have h: "get_static_reservation scenario3_db ''aa:bb:cc:dd:ee:ff'' =
     Some \<lparr>res_ip = ''192.168.1.50'', res_hostname = None, res_description = None\<rparr>"
    by (simp add: get_static_reservation_def scenario3_db_def)
  have l: "get_lease scenario3_db ''aa:bb:cc:dd:ee:ff'' 100 \<noteq> None"
    by (simp add: get_lease_def scenario3_db_def)
  from static_precedence [OF h, of DHCPServer_init "at_time 100"] h l show ?thesis by simp
qed

subsection \<open>Failures of the parser\<close>

text \<open>
  Claim C10. The parser returns a tuple for every buffer: the option loop terminates
  (\<open>parse_options\<close> is a total function) and the only exception of the body, an
  index beyond the end of the options, is caught. When it is caught the result is
  message type 0 with empty address and transaction id, and the dispatcher then sends
  nothing and leaves the store as it is.
\<close>

theorem parse_failure_dropped:
  assumes "parse_dhcp_body dec data = Inl e"
  shows "parse_dhcp_packet dec data = (0, [], [], None) \<and>
         handle_client dec cfg db data tk = (db, [])"
  using assms by (simp add: parse_dhcp_packet_def handle_client_def)

theorem parse_failure_dropped_witness:
  "parse_dhcp_body ascii_decode truncated_packet = Inl IndexError \<and>
   parse_dhcp_packet ascii_decode truncated_packet = (0, [], [], None) \<and>
   handle_client ascii_decode DHCPServer_init scenario3_db truncated_packet (at_time 100) =
     (scenario3_db, [])"
proof -
  have h: "parse_dhcp_body ascii_decode truncated_packet = Inl IndexError"
    by (simp add: parse_dhcp_body_def truncated_packet_def parse_options.simps
        read_option_def)
  from parse_failure_dropped [OF h] h show ?thesis by simp
qed

subsection \<open>Allocation from the pool\<close>

text \<open>
  Claim C3. For a hardware address with no static reservation and no unexpired lease,
  the allocator deletes the rows whose \<open>lease_end\<close> is not after the clock reading of
  the sweep and then returns the text of the numerically smallest host address of the
  configured network that is neither excluded nor the address of a row still active in
  the swept store; it returns nothing exactly when every host address is excluded or
  actively leased.
\<close>

theorem allocate_first_free:
  assumes nostatic: "get_static_reservation db mac = None"
    and nolease: "get_lease db mac (t_get_lease tk) = None"
    and g: "get_available_ip cfg db mac tk = (db', r)"
  shows "static_reservations db' = static_reservations db \<and>
         leases db' = filter (\<lambda>(m, l). lease_end l > t_cleanup tk) (leases db) \<and>
         (case r of
            Some ip \<Rightarrow>
              (\<exists>h \<in> set (hosts (network_address cfg) (prefixlen cfg)).
                 ip = str_ip h \<and>
                 ip \<notin> excluded_ips cfg \<and>
                 \<not> (\<exists>m l. (m, l) \<in> set (leases db') \<and> lease_end l > t_get_all tk \<and>
                            lease_ip l = ip) \<and>
                 (\<forall>h' \<in> set (hosts (network_address cfg) (prefixlen cfg)).
                    h' < h \<longrightarrow>
                    str_ip h' \<in> excluded_ips cfg \<or>
                    (\<exists>m l. (m, l) \<in> set (leases db') \<and> lease_end l > t_get_all tk \<and>
                           lease_ip l = str_ip h')))
          | None \<Rightarrow>
              (\<forall>h \<in> set (hosts (network_address cfg) (prefixlen cfg)).
                 str_ip h \<in> excluded_ips cfg \<or>
                 (\<exists>m l. (m, l) \<in> set (leases db') \<and> lease_end l > t_get_all tk \<and>
                        lease_ip l = str_ip h)))"
proof -
  let ?d = "cleanup_expired_leases db (t_cleanup tk)"
  let ?free = "\<lambda>s. s \<notin> excluded_ips cfg \<and>
                    s \<notin> set (map lease_ip (get_all_leases ?d (t_get_all tk)))"
  let ?hs = "hosts (network_address cfg) (prefixlen cfg)"
  from nostatic nolease have eq:
    "get_available_ip cfg db mac tk = (?d, find ?free (map str_ip ?hs))"
    by (simp add: get_available_ip_def Let_def)
  from g [unfolded eq] have d: "db' = ?d" by blast
  from g [unfolded eq] have f: "find ?free (map str_ip ?hs) = r" by blast
  have s: "static_reservations db' = static_reservations db"
    by (simp add: d cleanup_expired_leases_def)
  have l: "leases db' = filter (\<lambda>(m, l). lease_end l > t_cleanup tk) (leases db)"
    by (simp add: d cleanup_expired_leases_def not_le)
  have free: "?free s \<longleftrightarrow> s \<notin> excluded_ips cfg \<and>
      \<not> (\<exists>m l. (m, l) \<in> set (leases db') \<and> lease_end l > t_get_all tk \<and> lease_ip l = s)"
    for s
    unfolding active_ips_iff d by simp
  show ?thesis
  proof (cases r)
    case None
    with f have "\<forall>h \<in> set ?hs. \<not> ?free (str_ip h)"
      by (simp add: find_None_iff)
    then have "\<forall>h \<in> set ?hs. str_ip h \<in> excluded_ips cfg \<or>
                 (\<exists>m l. (m, l) \<in> set (leases db') \<and> lease_end l > t_get_all tk \<and>
                        lease_ip l = str_ip h)"
      unfolding free by blast
    with s l None show ?thesis by simp
  next
    case (Some ip)
    from find_map_first [OF hosts_ascending f [unfolded Some]] obtain h where
      h: "h \<in> set ?hs" "ip = str_ip h" "?free (str_ip h)"
         "\<forall>h' \<in> set ?hs. h' < h \<longrightarrow> \<not> ?free (str_ip h')"
      by blast
    from h(2,3) have a: "ip \<notin> excluded_ips cfg \<and>
        \<not> (\<exists>m l. (m, l) \<in> set (leases db') \<and> lease_end l > t_get_all tk \<and> lease_ip l = ip)"
      unfolding free by simp
    from h(4) have b: "\<forall>h' \<in> set ?hs. h' < h \<longrightarrow>
                    str_ip h' \<in> excluded_ips cfg \<or>
                    (\<exists>m l. (m, l) \<in> set (leases db') \<and> lease_end l > t_get_all tk \<and>
                           lease_ip l = str_ip h')"
      unfolding free by blast
    from h(1,2) a b have "\<exists>h \<in> set ?hs.
                 ip = str_ip h \<and>
                 ip \<notin> excluded_ips cfg \<and>
                 \<not> (\<exists>m l. (m, l) \<in> set (leases db') \<and> lease_end l > t_get_all tk \<and>
                            lease_ip l = ip) \<and>
                 (\<forall>h' \<in> set ?hs.
                    h' < h \<longrightarrow>
                    str_ip h' \<in> excluded_ips cfg \<or>
                    (\<exists>m l. (m, l) \<in> set (leases db') \<and> lease_end l > t_get_all tk \<and>
                           lease_ip l = str_ip h'))"
      by blast
    with s l Some show ?thesis by simp
  qed
qed

theorem allocate_first_free_witness:
  "get_static_reservation expired_db ''aa:bb:cc:dd:ee:01'' = None \<and>
   get_lease expired_db ''aa:bb:cc:dd:ee:01'' (t_get_lease (at_time 100)) = None \<and>
   get_available_ip DHCPServer_init expired_db ''aa:bb:cc:dd:ee:01'' (at_time 100) =
     (empty_db, Some ''192.168.1.2'') \<and>
   leases empty_db =
     filter (\<lambda>(m, l). lease_end l > t_cleanup (at_time 100)) (leases expired_db) \<and>
   (\<exists>h \<in> set (hosts (network_address DHCPServer_init) (prefixlen DHCPServer_init)).
      ''192.168.1.2'' = str_ip h \<and> ''192.168.1.2'' \<notin> excluded_ips DHCPServer_init)"
proof -
  have h1: "get_static_reservation expired_db ''aa:bb:cc:dd:ee:01'' = None"
    by (simp add: get_static_reservation_def expired_db_def)
  have h2: "get_lease expired_db ''aa:bb:cc:dd:ee:01'' (t_get_lease (at_time 100)) = None"
    by (simp add: get_lease_def expired_db_def at_time_def)
  have sw: "cleanup_expired_leases expired_db (t_cleanup (at_time 100)) = empty_db"
    by (simp add: cleanup_expired_leases_def expired_db_def empty_db_def at_time_def)
  have h3: "get_available_ip DHCPServer_init expired_db ''aa:bb:cc:dd:ee:01'' (at_time 100) =
     (empty_db, Some ''192.168.1.2'')"
    using alloc_init_first [OF h1 h2] by (simp add: sw) (simp add: get_all_leases_def empty_db_def)
  from allocate_first_free [OF h1 h2 h3] have
    "leases empty_db =
       filter (\<lambda>(m, l). lease_end l > t_cleanup (at_time 100)) (leases expired_db)"
    and "\<exists>h \<in> set (hosts (network_address DHCPServer_init) (prefixlen DHCPServer_init)).
      ''192.168.1.2'' = str_ip h \<and> ''192.168.1.2'' \<notin> excluded_ips DHCPServer_init"
    by auto
  with h1 h2 h3 show ?thesis by blast
qed

subsection \<open>DISCOVER and the store\<close>

text \<open>
  Claim C8, as the code has it. Handling a DISCOVER never inserts or changes a lease row
  and never touches the static reservations. When the client has a reservation or an
  unexpired lease the store is left as it is; otherwise the allocator's sweep deletes
  the rows whose \<open>lease_end\<close> is not after the clock reading, and all other rows stay.
  At most one datagram is sent, an OFFER to 255.255.255.255 port 68.
\<close>

theorem discover_only_sweeps:
  assumes "handle_discover cfg db client_mac transaction_id hostname tk = (db', out)"
  shows "static_reservations db' = static_reservations db \<and>
         leases db' =
           (if get_static_reservation db (mac_str client_mac) = None \<and>
               get_lease db (mac_str client_mac) (t_get_lease tk) = None
            then filter (\<lambda>(m, l). lease_end l > t_cleanup tk) (leases db)
            else leases db) \<and>
         (out = [] \<or>
          (\<exists>ip. out = [(create_dhcp_packet cfg DHCPOFFER client_mac transaction_id ip,
                         ''255.255.255.255'', 68)]))"
proof -
  obtain d r where g: "get_available_ip cfg db (mac_str client_mac) tk = (d, r)"
    by (cases "get_available_ip cfg db (mac_str client_mac) tk")
  from assms g have d: "db' = d"
    by (auto simp: handle_discover_def split: option.splits if_splits)
  from g have fst: "fst (get_available_ip cfg db (mac_str client_mac) tk) = db'"
    by (simp add: d)
  have s: "static_reservations db' = static_reservations db"
    using get_available_ip_statics [of cfg db "mac_str client_mac" tk] fst by simp
  have l: "leases db' =
           (if get_static_reservation db (mac_str client_mac) = None \<and>
               get_lease db (mac_str client_mac) (t_get_lease tk) = None
            then filter (\<lambda>(m, l). lease_end l > t_cleanup tk) (leases db)
            else leases db)"
    using get_available_ip_leases [of cfg db "mac_str client_mac" tk] fst
    by (simp add: not_le)
  have o: "out = [] \<or>
          (\<exists>ip. out = [(create_dhcp_packet cfg DHCPOFFER client_mac transaction_id ip,
                         ''255.255.255.255'', 68)])"
    using assms g
    by (auto simp: handle_discover_def send_reply_def split: option.splits if_splits)
  from s l o show ?thesis by simp
qed

text \<open>The DISCOVER of a new client at time 100 against the store whose only lease
  ended at time 50.\<close>

lemma alloc_expired:
  "get_available_ip DHCPServer_init expired_db ''aa:bb:cc:dd:ee:01'' (at_time 100) =
     (empty_db, Some ''192.168.1.2'')"
proof -
  have sw: "cleanup_expired_leases expired_db (t_cleanup (at_time 100)) = empty_db"
    by (simp add: cleanup_expired_leases_def expired_db_def empty_db_def at_time_def)
  have "get_static_reservation expired_db ''aa:bb:cc:dd:ee:01'' = None"
    by (simp add: get_static_reservation_def expired_db_def)
  moreover have "get_lease expired_db ''aa:bb:cc:dd:ee:01'' (t_get_lease (at_time 100)) = None"
    by (simp add: get_lease_def expired_db_def at_time_def)
  ultimately show ?thesis
    using alloc_init_first [of expired_db "''aa:bb:cc:dd:ee:01''" "at_time 100"]
    by (simp add: sw) (simp add: get_all_leases_def empty_db_def)
qed

lemma discover_expired:
  "handle_discover DHCPServer_init expired_db mac_01 xid_1 None (at_time 100) =
     (empty_db,
      [(create_dhcp_packet DHCPServer_init DHCPOFFER mac_01 xid_1 ''192.168.1.2'',
        ''255.255.255.255'', 68)])"
  using create_init_nonempty [OF inet_aton_2, of DHCPOFFER mac_01 xid_1]
  by (simp add: handle_discover_def mac_str_01 alloc_expired send_reply_def)

theorem discover_only_sweeps_witness:
  "handle_discover DHCPServer_init expired_db mac_01 xid_1 None (at_time 100) =
     (empty_db,
      [(create_dhcp_packet DHCPServer_init DHCPOFFER mac_01 xid_1 ''192.168.1.2'',
        ''255.255.255.255'', 68)]) \<and>
   static_reservations empty_db = static_reservations expired_db \<and>
   leases empty_db =
     (if get_static_reservation expired_db (mac_str mac_01) = None \<and>
         get_lease expired_db (mac_str mac_01) (t_get_lease (at_time 100)) = None
      then filter (\<lambda>(m, l). lease_end l > t_cleanup (at_time 100)) (leases expired_db)
      else leases expired_db)"
  using discover_only_sweeps [OF discover_expired] discover_expired by blast

theorem discover_mutates_counterexample:
  "fst (handle_discover DHCPServer_init expired_db mac_01 xid_1 None (at_time 100)) = empty_db \<and>
   leases expired_db =
     [(''aa:bb:cc:dd:ee:02'',
       \<lparr>lease_ip = ''192.168.1.2'', lease_hostname = None, lease_start = 0,
        lease_end = 50, last_seen = 0\<rparr>)] \<and>
   leases empty_db = [] \<and>
   leases (fst (handle_discover DHCPServer_init expired_db mac_01 xid_1 None (at_time 100)))
     \<noteq> leases expired_db"
  by (simp add: discover_expired) (simp add: empty_db_def expired_db_def)

subsection \<open>Renewal\<close>

lemma create_dhcp_packet_xid:
  "create_dhcp_packet cfg mt mac xid ip \<noteq> [] \<Longrightarrow> create_dhcp_packet cfg mt mac xid' ip \<noteq> []"
  by (auto simp: create_dhcp_packet_def create_dhcp_body_def Let_def
      split: option.splits sum.splits if_splits)

lemma handle_request_acked:
  assumes "handle_request cfg db client_mac xid hostname tk = (db', out)" and "out \<noteq> []"
  shows "\<exists>d ip. get_available_ip cfg db (mac_str client_mac) tk = (d, Some ip) \<and> ip \<noteq> [] \<and>
           db' = add_lease d (mac_str client_mac) ip (lease_time cfg) hostname (t_add_lease tk) \<and>
           out = [(create_dhcp_packet cfg DHCPACK client_mac xid ip, ''255.255.255.255'', 68)] \<and>
           create_dhcp_packet cfg DHCPACK client_mac xid ip \<noteq> []"
proof -
  obtain d r where g: "get_available_ip cfg db (mac_str client_mac) tk = (d, r)"
    by (cases "get_available_ip cfg db (mac_str client_mac) tk")
  with assms show ?thesis
    by (cases r) (auto simp: handle_request_def send_reply_def split: if_splits)
qed

text \<open>Once a REQUEST has stored the lease, the allocator returns the same address for
  the same client as long as the lease has not expired, from the reservation if there
  is one and from the lease otherwise.\<close>

lemma realloc_after_request:
  assumes g: "get_available_ip cfg db mac tk1 = (d, Some ip)"
    and within: "t_get_lease tk2 < now + of_int lt"
  shows "get_available_ip cfg (add_lease d mac ip lt hn now) mac tk2 =
           (add_lease d mac ip lt hn now, Some ip)"
proof (cases "get_static_reservation db mac")
  case None
  have "static_reservations (add_lease d mac ip lt hn now) = static_reservations db"
    using get_available_ip_statics [of cfg db mac tk1] g by (simp add: add_lease_statics)
  then have "get_static_reservation (add_lease d mac ip lt hn now) mac = None"
    using None by (simp add: get_static_reservation_def)
  then show ?thesis
    by (simp add: get_available_ip_def get_lease_add_lease [OF within])
next
  case (Some r)
  with g have ip: "ip = res_ip r" and d: "d = db"
    by (simp_all add: get_available_ip_def)
  have "get_static_reservation (add_lease d mac ip lt hn now) mac = Some r"
    using Some d by (simp add: get_static_reservation_def add_lease_statics)
  then show ?thesis
    by (simp add: get_available_ip_def ip)
qed

text \<open>
  Claim C9. Let a REQUEST of a client be acknowledged, and let the next datagram handled
  be a REQUEST of the same client whose lease lookup is read before the first lease
  ends and whose commit is read after the commit of the first. Then both are
  acknowledged with the same address, each REQUEST stores \<open>lease_start\<close> and
  \<open>last_seen\<close> as its commit reading and \<open>lease_end\<close> as that reading plus the
  configured lease seconds, and the second \<open>lease_end\<close> is strictly greater.
\<close>

theorem renewal_stability:
  assumes first: "handle_request cfg db client_mac xid1 hostname1 tk1 = (db1, out1)"
    and acked: "out1 \<noteq> []"
    and second: "handle_request cfg db1 client_mac xid2 hostname2 tk2 = (db2, out2)"
    and within: "t_get_lease tk2 < t_add_lease tk1 + of_int (lease_time cfg)"
    and later: "t_add_lease tk1 < t_add_lease tk2"
  shows "\<exists>ip l1 l2.
           out1 = [(create_dhcp_packet cfg DHCPACK client_mac xid1 ip, ''255.255.255.255'', 68)] \<and>
           out2 = [(create_dhcp_packet cfg DHCPACK client_mac xid2 ip, ''255.255.255.255'', 68)] \<and>
           create_dhcp_packet cfg DHCPACK client_mac xid1 ip \<noteq> [] \<and>
           create_dhcp_packet cfg DHCPACK client_mac xid2 ip \<noteq> [] \<and>
           map_of (leases db1) (mac_str client_mac) = Some l1 \<and>
           map_of (leases db2) (mac_str client_mac) = Some l2 \<and>
           lease_ip l1 = ip \<and> lease_ip l2 = ip \<and>
           lease_start l1 = t_add_lease tk1 \<and> last_seen l1 = t_add_lease tk1 \<and>
           lease_end l1 = t_add_lease tk1 + of_int (lease_time cfg) \<and>
           lease_start l2 = t_add_lease tk2 \<and> last_seen l2 = t_add_lease tk2 \<and>
           lease_end l2 = t_add_lease tk2 + of_int (lease_time cfg) \<and>
           lease_end l1 < lease_end l2"
proof -
  let ?m = "mac_str client_mac"
  from handle_request_acked [OF first acked] obtain d ip where
    g1: "get_available_ip cfg db ?m tk1 = (d, Some ip)" and ne: "ip \<noteq> []" and
    db1: "db1 = add_lease d ?m ip (lease_time cfg) hostname1 (t_add_lease tk1)" and
    o1: "out1 = [(create_dhcp_packet cfg DHCPACK client_mac xid1 ip, ''255.255.255.255'', 68)]" and
    c1: "create_dhcp_packet cfg DHCPACK client_mac xid1 ip \<noteq> []"
    by blast
  have g2: "get_available_ip cfg db1 ?m tk2 = (db1, Some ip)"
    unfolding db1 by (rule realloc_after_request [OF g1 within])
  have c2: "create_dhcp_packet cfg DHCPACK client_mac xid2 ip \<noteq> []"
    by (rule create_dhcp_packet_xid [OF c1])
  from second g2 ne c2 have
    db2: "db2 = add_lease db1 ?m ip (lease_time cfg) hostname2 (t_add_lease tk2)" and
    o2: "out2 = [(create_dhcp_packet cfg DHCPACK client_mac xid2 ip, ''255.255.255.255'', 68)]"
    by (simp_all add: handle_request_def send_reply_def)
  show ?thesis
    using o1 o2 c1 c2 later
    by (simp add: db1 db2 map_of_add_lease)
qed

text \<open>A new client's REQUEST at time 0 against the empty store, renewed at time 100.\<close>

lemma request_fresh:
  "handle_request DHCPServer_init empty_db mac_01 xid_1 None (at_time 0) =
     (add_lease empty_db ''aa:bb:cc:dd:ee:01'' ''192.168.1.2'' 3600 None 0,
      [(create_dhcp_packet DHCPServer_init DHCPACK mac_01 xid_1 ''192.168.1.2'',
        ''255.255.255.255'', 68)])"
proof -
  have sw: "cleanup_expired_leases empty_db t = empty_db" for t
    by (simp add: cleanup_expired_leases_def empty_db_def)
  have "get_available_ip DHCPServer_init empty_db ''aa:bb:cc:dd:ee:01'' (at_time 0) =
          (empty_db, Some ''192.168.1.2'')"
    using alloc_init_first [of empty_db "''aa:bb:cc:dd:ee:01''" "at_time 0"]
    by (simp add: sw) (simp add: get_all_leases_def get_static_reservation_def get_lease_def
        empty_db_def)
  then show ?thesis
    using create_init_nonempty [OF inet_aton_2, of DHCPACK mac_01 xid_1]
    by (simp add: handle_request_def mac_str_01 send_reply_def at_time_def)
       (simp add: DHCPServer_init_def)
qed

theorem renewal_stability_witness:
  "snd (handle_request DHCPServer_init empty_db mac_01 xid_1 None (at_time 0)) \<noteq> [] \<and>
   t_get_lease (at_time 100) < t_add_lease (at_time 0) + of_int (lease_time DHCPServer_init) \<and>
   t_add_lease (at_time 0) < t_add_lease (at_time 100) \<and>
   (\<exists>ip l1 l2.
      snd (handle_request DHCPServer_init empty_db mac_01 xid_1 None (at_time 0)) =
        [(create_dhcp_packet DHCPServer_init DHCPACK mac_01 xid_1 ip, ''255.255.255.255'', 68)] \<and>
      snd (handle_request DHCPServer_init
             (fst (handle_request DHCPServer_init empty_db mac_01 xid_1 None (at_time 0)))
             mac_01 xid_1 None (at_time 100)) =
        [(create_dhcp_packet DHCPServer_init DHCPACK mac_01 xid_1 ip, ''255.255.255.255'', 68)] \<and>
      map_of (leases (fst (handle_request DHCPServer_init empty_db mac_01 xid_1 None
                (at_time 0)))) (mac_str mac_01) = Some l1 \<and>
      map_of (leases (fst (handle_request DHCPServer_init
             (fst (handle_request DHCPServer_init empty_db mac_01 xid_1 None (at_time 0)))
             mac_01 xid_1 None (at_time 100)))) (mac_str mac_01) = Some l2 \<and>
      lease_end l1 < lease_end l2)"
proof -
  let ?r1 = "handle_request DHCPServer_init empty_db mac_01 xid_1 None (at_time 0)"
  let ?r2 = "handle_request DHCPServer_init (fst ?r1) mac_01 xid_1 None (at_time 100)"
  have h1: "?r1 = (fst ?r1, snd ?r1)" and h3: "?r2 = (fst ?r2, snd ?r2)" by simp_all
  have h2: "snd ?r1 \<noteq> []" by (simp add: request_fresh)
  have h4: "t_get_lease (at_time 100) <
              t_add_lease (at_time 0) + of_int (lease_time DHCPServer_init)"
    by (simp add: at_time_def DHCPServer_init_def)
  have h5: "t_add_lease (at_time 0) < t_add_lease (at_time 100)"
    by (simp add: at_time_def)
  from renewal_stability [OF h1 h2 h3 h4 h5] h2 h4 h5 show ?thesis by blast
qed

subsection \<open>Uniqueness of active addresses\<close>

lemma unique_active_mono:
  "unique_active rows t \<Longrightarrow> t \<le> t' \<Longrightarrow> unique_active rows t'"
  unfolding unique_active_def by fastforce

lemma unique_active_filter:
  "unique_active rows t \<Longrightarrow> unique_active (filter P rows) t"
  unfolding unique_active_def by fastforce

lemma unique_active_add:
  assumes inv: "unique_active rows t"
    and fresh: "\<forall>(m2, l2) \<in> set rows. m2 \<noteq> mac \<and> lease_end l2 > t \<longrightarrow> lease_ip l2 \<noteq> lease_ip new"
  shows "unique_active (filter (\<lambda>(m, l). m \<noteq> mac) rows @ [(mac, new)]) t"
  using assms unfolding unique_active_def by (auto; fastforce)

text \<open>The address the allocator returns for a client without reservation is not held
  by an active lease of another client at the time of the commit.\<close>

lemma alloc_fresh:
  assumes inv: "unique_active (leases db) t0"
    and t01: "t0 \<le> t_get_lease tk" and ord: "ticks_ordered tk"
    and nostatic: "get_static_reservation db mac = None"
    and g: "get_available_ip cfg db mac tk = (d, Some ip)"
  shows "\<forall>(m2, l2) \<in> set (leases d).
            m2 \<noteq> mac \<and> lease_end l2 > t_add_lease tk \<longrightarrow> lease_ip l2 \<noteq> ip"
proof (cases "get_lease db mac (t_get_lease tk)")
  case (Some l)
  with g nostatic have d: "d = db" and ip: "ip = lease_ip l"
    by (simp_all add: get_available_ip_def)
  from get_lease_SomeD [OF Some] have row: "(mac, l) \<in> set (leases db)"
    and act: "lease_end l > t_get_lease tk" by simp_all
  have inv1: "unique_active (leases db) (t_get_lease tk)"
    by (rule unique_active_mono [OF inv t01])
  have le: "t_get_lease tk \<le> t_add_lease tk"
    using ord by (simp add: ticks_ordered_def)
  have "\<forall>(m2, l2) \<in> set (leases db).
          m2 \<noteq> mac \<and> lease_end l2 > t_add_lease tk \<longrightarrow> lease_ip l2 \<noteq> ip"
  proof (clarify)
    fix m2 l2
    assume r2: "(m2, l2) \<in> set (leases db)" and ne: "m2 \<noteq> mac"
      and a2: "lease_end l2 > t_add_lease tk" and eq: "ip = lease_ip l2"
    from a2 le have "lease_end l2 > t_get_lease tk" by simp
    with inv1 row r2 ne act have "lease_ip l \<noteq> lease_ip l2"
      unfolding unique_active_def by fastforce
    with eq ip show False by simp
  qed
  then show ?thesis by (simp add: d)
next
  case None
  let ?d = "cleanup_expired_leases db (t_cleanup tk)"
  let ?act = "set (map lease_ip (get_all_leases ?d (t_get_all tk)))"
  from nostatic None have eq:
    "get_available_ip cfg db mac tk =
       (?d, find (\<lambda>s. s \<notin> excluded_ips cfg \<and> s \<notin> ?act)
              (map str_ip (hosts (network_address cfg) (prefixlen cfg))))"
    by (simp add: get_available_ip_def Let_def)
  from g [unfolded eq] have d: "d = ?d" by blast
  from g [unfolded eq] have
    f: "find (\<lambda>s. s \<notin> excluded_ips cfg \<and> s \<notin> ?act)
              (map str_ip (hosts (network_address cfg) (prefixlen cfg))) = Some ip"
    by blast
  from f have notact: "ip \<notin> ?act"
    by (auto simp: find_Some_iff)
  have le: "t_get_all tk \<le> t_add_lease tk"
    using ord by (simp add: ticks_ordered_def)
  have "\<forall>(m2, l2) \<in> set (leases ?d).
          m2 \<noteq> mac \<and> lease_end l2 > t_add_lease tk \<longrightarrow> lease_ip l2 \<noteq> ip"
  proof (clarify)
    fix m2 l2
    assume r2: "(m2, l2) \<in> set (leases ?d)" and a2: "lease_end l2 > t_add_lease tk"
      and eq: "ip = lease_ip l2"
    from a2 le have "lease_end l2 > t_get_all tk" by simp
    with r2 have "l2 \<in> set (get_all_leases ?d (t_get_all tk))"
      by (force simp: get_all_leases_def)
    then have "lease_ip l2 \<in> ?act" by simp
    with notact eq show False by simp
  qed
  then show ?thesis by (simp add: d)
qed

lemma alloc_keeps_unique:
  assumes inv: "unique_active (leases db) t"
  shows "unique_active (leases (fst (get_available_ip cfg db mac tk))) t"
  using inv unique_active_filter [OF inv]
  by (simp add: get_available_ip_def cleanup_expired_leases_def Let_def split: option.splits)

lemma handle_request_unique:
  assumes inv: "unique_active (leases db) t0"
    and t01: "t0 \<le> t_get_lease tk" and ord: "ticks_ordered tk"
    and nostatic: "get_static_reservation db (mac_str client_mac) = None"
  shows "unique_active (leases (fst (handle_request cfg db client_mac xid hn tk))) (t_add_lease tk)"
proof -
  have le0: "t0 \<le> t_add_lease tk"
    using ord t01 by (simp add: ticks_ordered_def)
  obtain d r where g: "get_available_ip cfg db (mac_str client_mac) tk = (d, r)"
    by (cases "get_available_ip cfg db (mac_str client_mac) tk")
  have keep: "unique_active (leases d) (t_add_lease tk)"
    using alloc_keeps_unique [OF unique_active_mono [OF inv le0], of cfg "mac_str client_mac" tk] g
    by simp
  show ?thesis
  proof (cases r)
    case None
    with g keep show ?thesis by (simp add: handle_request_def)
  next
    case (Some ip)
    note fresh = alloc_fresh [OF inv t01 ord nostatic g [unfolded Some]]
    have "unique_active (leases (add_lease d (mac_str client_mac) ip (lease_time cfg) hn
             (t_add_lease tk))) (t_add_lease tk)"
      unfolding add_lease_def using unique_active_add [OF keep, of "mac_str client_mac"] fresh
      by simp
    with g Some keep show ?thesis by (simp add: handle_request_def)
  qed
qed

lemma handle_discover_unique:
  assumes inv: "unique_active (leases db) t"
  shows "unique_active (leases (fst (handle_discover cfg db client_mac xid hn tk))) t"
proof -
  obtain d r where g: "get_available_ip cfg db (mac_str client_mac) tk = (d, r)"
    by (cases "get_available_ip cfg db (mac_str client_mac) tk")
  with alloc_keeps_unique [OF inv, of cfg "mac_str client_mac" tk]
  show ?thesis by (cases r) (simp_all add: handle_discover_def)
qed

lemma handle_client_statics:
  "static_reservations (fst (handle_client dec cfg db data tk)) = static_reservations db"
proof -
  obtain mt m x h where p: "parse_dhcp_packet dec data = (mt, m, x, h)"
    by (cases "parse_dhcp_packet dec data")
  obtain d r where g: "get_available_ip cfg db (mac_str m) tk = (d, r)"
    by (cases "get_available_ip cfg db (mac_str m) tk")
  with get_available_ip_statics [of cfg db "mac_str m" tk]
  have "static_reservations d = static_reservations db" by simp
  with p g show ?thesis
    by (cases r) (simp_all add: handle_client_def handle_discover_def handle_request_def
        add_lease_def)
qed

lemma handle_client_unique:
  assumes inv: "unique_active (leases db) t0"
    and t01: "t0 \<le> t_get_lease tk" and ord: "ticks_ordered tk"
    and nostatic: "get_static_reservation db (sender dec data) = None"
  shows "unique_active (leases (fst (handle_client dec cfg db data tk))) (t_add_lease tk)"
proof -
  obtain mt m x h where p: "parse_dhcp_packet dec data = (mt, m, x, h)"
    by (cases "parse_dhcp_packet dec data")
  have le0: "t0 \<le> t_add_lease tk"
    using ord t01 by (simp add: ticks_ordered_def)
  note inv4 = unique_active_mono [OF inv le0]
  from nostatic p have ns: "get_static_reservation db (mac_str m) = None"
    by (simp add: sender_def)
  show ?thesis
    using p inv4 handle_discover_unique [OF inv4, of cfg m x h tk]
      handle_request_unique [OF inv t01 ord ns, of cfg x h]
    by (simp add: handle_client_def)
qed

text \<open>
  Claim C1, as the code has it. Let the active leases of a store have pairwise different
  addresses at time \<open>t0\<close>, and let the server handle, one datagram after the other and
  with clock readings that never go backwards, datagrams whose senders have no static
  reservation. Then at every time from the last clock reading on, two rows of different
  hardware addresses whose \<open>lease_end\<close> is in the future have different addresses.
\<close>

theorem unique_active_ips:
  assumes "unique_active (leases db) t0"
    and "chronological t0 events"
    and "\<forall>(data, tk) \<in> set events. get_static_reservation db (sender dec data) = None"
    and "last_tick t0 events \<le> t"
  shows "unique_active (leases (run dec cfg db events)) t"
  using assms
proof (induction events arbitrary: db t0)
  case Nil
  then show ?case by (simp add: unique_active_mono)
next
  case (Cons ev events)
  obtain data tk where ev: "ev = (data, tk)" by (cases ev)
  let ?db = "fst (handle_client dec cfg db data tk)"
  from Cons.prems ev have ns: "get_static_reservation db (sender dec data) = None"
    by simp
  have inv: "unique_active (leases ?db) (t_add_lease tk)"
    using handle_client_unique [OF Cons.prems(1) _ _ ns, of tk cfg] Cons.prems(2) ev
    by simp
  have st: "\<forall>(data, tk) \<in> set events. get_static_reservation ?db (sender dec data) = None"
    using Cons.prems(3) handle_client_statics [of dec cfg db data tk]
    by (simp add: get_static_reservation_def)
  show ?case
    using Cons.IH [OF inv _ st] Cons.prems(2,4) ev by simp
qed

text \<open>Two REQUESTs of two new clients against the empty store, at times 10 and 20.\<close>

lemma str_ip_3: "str_ip 3232235779 = ''192.168.1.3''"
  by (simp add: str_ip_def str_nat.simps digit_char_def)

lemma hosts_init3:
  "hosts (network_address DHCPServer_init) (prefixlen DHCPServer_init) =
     3232235777 # 3232235778 # 3232235779 # [3232235780..<3232236031]"
  by (simp add: hosts_def DHCPServer_init_def upt_conv_Cons del: upt_rec_numeral)

lemma alloc_init_second:
  assumes "get_static_reservation db mac = None"
    and "get_lease db mac (t_get_lease tk) = None"
    and "set (map lease_ip
           (get_all_leases (cleanup_expired_leases db (t_cleanup tk)) (t_get_all tk))) =
         {''192.168.1.2''}"
  shows "get_available_ip DHCPServer_init db mac tk =
           (cleanup_expired_leases db (t_cleanup tk), Some ''192.168.1.3'')"
  using assms
  by (simp add: get_available_ip_def Let_def hosts_init3 str_ip_1 str_ip_2 str_ip_3
      excluded_init)

lemma run_two_requests:
  "leases (run ascii_decode DHCPServer_init empty_db
     [(request_packet mac_01, at_time 10), (request_packet mac_ff, at_time 20)]) =
   [(''aa:bb:cc:dd:ee:01'',
       \<lparr>lease_ip = ''192.168.1.2'', lease_hostname = None, lease_start = 10,
        lease_end = 3610, last_seen = 10\<rparr>),
      (''aa:bb:cc:dd:ee:ff'',
       \<lparr>lease_ip = ''192.168.1.3'', lease_hostname = None, lease_start = 20,
        lease_end = 3620, last_seen = 20\<rparr>)]"
proof -
  let ?db1 = "add_lease empty_db ''aa:bb:cc:dd:ee:01'' ''192.168.1.2'' 3600 None 10"
  have g1: "get_available_ip DHCPServer_init empty_db (mac_str mac_01) (at_time 10) =
          (empty_db, Some ''192.168.1.2'')"
    by (simp add: mac_str_01 get_available_ip_def get_static_reservation_def get_lease_def
        cleanup_expired_leases_def get_all_leases_def empty_db_def hosts_init str_ip_1
        str_ip_2 excluded_init)
  have s1: "fst (handle_client ascii_decode DHCPServer_init empty_db (request_packet mac_01)
              (at_time 10)) = ?db1"
    by (simp add: handle_client_def parse_request_packet [OF length_mac_01] handle_request_def g1)
       (simp add: mac_str_01 at_time_def DHCPServer_init_def)
  have sw: "cleanup_expired_leases ?db1 (t_cleanup (at_time 20)) = ?db1"
    by (simp add: cleanup_expired_leases_def add_lease_def empty_db_def at_time_def)
  have act: "set (map lease_ip (get_all_leases ?db1 (t_get_all (at_time 20)))) =
               {''192.168.1.2''}"
    by (simp add: get_all_leases_def add_lease_def empty_db_def at_time_def)
  have g2: "get_available_ip DHCPServer_init ?db1 (mac_str mac_ff) (at_time 20) =
          (?db1, Some ''192.168.1.3'')"
    using alloc_init_second [of ?db1 "mac_str mac_ff" "at_time 20"] act
    by (simp add: sw)
       (simp add: mac_str_ff get_static_reservation_def get_lease_def add_lease_def
         empty_db_def)
  have s2: "leases (fst (handle_client ascii_decode DHCPServer_init ?db1 (request_packet mac_ff)
              (at_time 20))) =
     [(''aa:bb:cc:dd:ee:01'',
       \<lparr>lease_ip = ''192.168.1.2'', lease_hostname = None, lease_start = 10,
        lease_end = 3610, last_seen = 10\<rparr>),
      (''aa:bb:cc:dd:ee:ff'',
       \<lparr>lease_ip = ''192.168.1.3'', lease_hostname = None, lease_start = 20,
        lease_end = 3620, last_seen = 20\<rparr>)]"
    by (simp add: handle_client_def parse_request_packet [OF length_mac_ff] handle_request_def g2)
       (simp add: mac_str_ff add_lease_def empty_db_def at_time_def DHCPServer_init_def)
  show ?thesis
    by (simp add: s1 s2)
qed

theorem unique_active_ips_witness:
  "chronological 0 [(request_packet mac_01, at_time 10), (request_packet mac_ff, at_time 20)] \<and>
   last_tick 0 [(request_packet mac_01, at_time 10), (request_packet mac_ff, at_time 20)] \<le> 20 \<and>
   map fst (leases (run ascii_decode DHCPServer_init empty_db
        [(request_packet mac_01, at_time 10), (request_packet mac_ff, at_time 20)])) =
     [''aa:bb:cc:dd:ee:01'', ''aa:bb:cc:dd:ee:ff''] \<and>
   lease_ip (snd (leases (run ascii_decode DHCPServer_init empty_db
        [(request_packet mac_01, at_time 10), (request_packet mac_ff, at_time 20)]) ! 0)) \<noteq>
   lease_ip (snd (leases (run ascii_decode DHCPServer_init empty_db
        [(request_packet mac_01, at_time 10), (request_packet mac_ff, at_time 20)]) ! 1))"
proof -
  let ?es = "[(request_packet mac_01, at_time 10), (request_packet mac_ff, at_time 20)]"
  have h1: "unique_active (leases empty_db) 0"
    by (simp add: unique_active_def empty_db_def)
  have h2: "chronological 0 ?es"
    by (simp add: ticks_ordered_def at_time_def)
  have h3: "\<forall>(data, tk) \<in> set ?es.
      get_static_reservation empty_db (sender ascii_decode data) = None"
    by (simp add: get_static_reservation_def empty_db_def)
  have h4: "last_tick 0 ?es \<le> 20"
    by (simp add: at_time_def)
  from unique_active_ips [OF h1 h2 h3 h4, of DHCPServer_init]
  have "lease_ip (snd (leases (run ascii_decode DHCPServer_init empty_db ?es) ! 0)) \<noteq>
        lease_ip (snd (leases (run ascii_decode DHCPServer_init empty_db ?es) ! 1))"
    unfolding run_two_requests unique_active_def by simp
  moreover have "map fst (leases (run ascii_decode DHCPServer_init empty_db ?es)) =
     [''aa:bb:cc:dd:ee:01'', ''aa:bb:cc:dd:ee:ff'']"
    unfolding run_two_requests by simp
  ultimately show ?thesis
    using h2 h4 by blast
qed

text \<open>Two REQUESTs, handled one after the other: a client without reservation is given
  192.168.1.2, and then the client for which 192.168.1.2 is reserved is given it too.\<close>

lemma request_reserved_first:
  "handle_request DHCPServer_init reserved_db mac_01 xid_1 None (at_time 0) =
     (add_lease reserved_db ''aa:bb:cc:dd:ee:01'' ''192.168.1.2'' 3600 None 0,
      [(create_dhcp_packet DHCPServer_init DHCPACK mac_01 xid_1 ''192.168.1.2'',
        ''255.255.255.255'', 68)])"
proof -
  have sw: "cleanup_expired_leases reserved_db t = reserved_db" for t
    by (simp add: cleanup_expired_leases_def reserved_db_def)
  have "get_available_ip DHCPServer_init reserved_db ''aa:bb:cc:dd:ee:01'' (at_time 0) =
          (reserved_db, Some ''192.168.1.2'')"
    using alloc_init_first [of reserved_db "''aa:bb:cc:dd:ee:01''" "at_time 0"]
    by (simp add: sw) (simp add: get_all_leases_def get_static_reservation_def get_lease_def
        reserved_db_def)
  then show ?thesis
    using create_init_nonempty [OF inet_aton_2, of DHCPACK mac_01 xid_1]
    by (simp add: handle_request_def mac_str_01 send_reply_def at_time_def)
       (simp add: DHCPServer_init_def)
qed

theorem unique_ips_counterexample:
  "leases (fst (handle_request DHCPServer_init
             (fst (handle_request DHCPServer_init reserved_db mac_01 xid_1 None (at_time 0)))
             mac_ff xid_1 None (at_time 1))) =
     [(''aa:bb:cc:dd:ee:01'',
       \<lparr>lease_ip = ''192.168.1.2'', lease_hostname = None, lease_start = 0,
        lease_end = 3600, last_seen = 0\<rparr>),
      (''aa:bb:cc:dd:ee:ff'',
       \<lparr>lease_ip = ''192.168.1.2'', lease_hostname = None, lease_start = 1,
        lease_end = 3601, last_seen = 1\<rparr>)] \<and>
   \<not> unique_active
       (leases (fst (handle_request DHCPServer_init
             (fst (handle_request DHCPServer_init reserved_db mac_01 xid_1 None (at_time 0)))
             mac_ff xid_1 None (at_time 1)))) 2"
proof -
  let ?db1 = "add_lease reserved_db ''aa:bb:cc:dd:ee:01'' ''192.168.1.2'' 3600 None 0"
  have r1: "fst (handle_request DHCPServer_init reserved_db mac_01 xid_1 None (at_time 0)) = ?db1"
    by (simp add: request_reserved_first)
  have g: "get_available_ip DHCPServer_init ?db1 (mac_str mac_ff) (at_time 1) =
          (?db1, Some ''192.168.1.2'')"
    by (simp add: mac_str_ff get_available_ip_def get_static_reservation_def add_lease_def
        reserved_db_def)
  have "leases (fst (handle_request DHCPServer_init ?db1 mac_ff xid_1 None (at_time 1))) =
     [(''aa:bb:cc:dd:ee:01'',
       \<lparr>lease_ip = ''192.168.1.2'', lease_hostname = None, lease_start = 0,
        lease_end = 3600, last_seen = 0\<rparr>),
      (''aa:bb:cc:dd:ee:ff'',
       \<lparr>lease_ip = ''192.168.1.2'', lease_hostname = None, lease_start = 1,
        lease_end = 3601, last_seen = 1\<rparr>)]"
    by (simp add: handle_request_def g)
       (simp add: mac_str_ff add_lease_def reserved_db_def at_time_def DHCPServer_init_def)
  then have rows:
    "leases (fst (handle_request DHCPServer_init
             (fst (handle_request DHCPServer_init reserved_db mac_01 xid_1 None (at_time 0)))
             mac_ff xid_1 None (at_time 1))) =
     [(''aa:bb:cc:dd:ee:01'',
       \<lparr>lease_ip = ''192.168.1.2'', lease_hostname = None, lease_start = 0,
        lease_end = 3600, last_seen = 0\<rparr>),
      (''aa:bb:cc:dd:ee:ff'',
       \<lparr>lease_ip = ''192.168.1.2'', lease_hostname = None, lease_start = 1,
        lease_end = 3601, last_seen = 1\<rparr>)]"
    by (simp only: r1)
  show ?thesis
    unfolding rows by (simp add: unique_active_def)
qed

subsection \<open>When the parser fails\<close>

text \<open>
  Claim C4, as the code has it. The body of the parser raises exactly when the option
  walk over the bytes from offset 240 on overruns: it meets a tag other than 255 that
  has no length byte, or tag 53 with no byte after its length byte. Neither the length
  of the buffer nor the magic cookie is examined, and the absence of tag 255 or of
  tag 53 is no failure: a buffer of at most 240 bytes is parsed to message type 0 with
  whatever bytes it has at offsets 28..34 and 4..8.
\<close>

theorem parse_fails_iff_overrun:
  "((\<exists>e. parse_dhcp_body dec data = Inl e) \<longleftrightarrow> overruns (drop 240 data)) \<and>
   (length data \<le> 240 \<longrightarrow>
      parse_dhcp_packet dec data = (0, slice data 28 34, slice data 4 8, None))"
proof -
  have "(\<exists>e. parse_dhcp_body dec data = Inl e) \<longleftrightarrow>
          (\<exists>e. parse_options dec (drop 240 data) 0 0 None = Inl e)"
    by (auto simp: parse_dhcp_body_def split: sum.splits)
  then have a: "(\<exists>e. parse_dhcp_body dec data = Inl e) \<longleftrightarrow> overruns (drop 240 data)"
    using parse_options_overruns [of dec "drop 240 data" 0 0 None] by simp
  have b: "parse_dhcp_packet dec data = (0, slice data 28 34, slice data 4 8, None)"
    if "length data \<le> 240"
    using that by (simp add: parse_dhcp_packet_def parse_dhcp_body_def parse_options.simps)
  from a b show ?thesis by blast
qed

theorem parse_fails_iff_overrun_witness:
  "overruns (drop 240 truncated_packet) \<and>
   (\<exists>e. parse_dhcp_body ascii_decode truncated_packet = Inl e) \<and>
   length (replicate 100 (0 :: byte)) \<le> 240 \<and>
   parse_dhcp_packet ascii_decode (replicate 100 0) =
     (0, replicate 6 0, replicate 4 0, None)"
proof -
  have o: "overruns (drop 240 truncated_packet)"
    by (simp add: truncated_packet_def)
  have l: "length (replicate 100 (0 :: byte)) \<le> 240"
    by simp
  from parse_fails_iff_overrun [of ascii_decode truncated_packet] o
  have "\<exists>e. parse_dhcp_body ascii_decode truncated_packet = Inl e"
    by blast
  moreover from parse_fails_iff_overrun [of ascii_decode "replicate 100 0"] l
  have "parse_dhcp_packet ascii_decode (replicate 100 0) =
          (0, replicate 6 0, replicate 4 0, None)"
    by (simp add: slice_def)
  ultimately show ?thesis using o l by blast
qed

text \<open>A DISCOVER whose bytes 236..240 are zero is parsed like one with the cookie.\<close>

lemma parse_discover_options:
  "parse_options dec [53, 1, 1, 255] 0 0 None = Inr (1, None)"
  by (simp add: parse_options.simps read_option_def)

lemma discover_packet_bytes:
  "discover_packet = [1, 1, 6, 0] @ xid_1 @ replicate 20 0 @ mac_01 @ replicate 202 0 @
                     [0x63, 0x82, 0x53, 0x63] @ [53, 1, 1, 255]"
  by (simp add: discover_packet_def client_header_bytes [OF length_xid_1 length_mac_01])

lemma bad_cookie_packet_bytes:
  "bad_cookie_packet = [1, 1, 6, 0] @ xid_1 @ replicate 20 0 @ mac_01 @ replicate 202 0 @
                     [0, 0, 0, 0] @ [53, 1, 1, 255]"
  by (simp add: bad_cookie_packet_def discover_packet_bytes set_slice_def length_xid_1
      length_mac_01)

theorem bad_cookie_counterexample:
  "slice bad_cookie_packet 236 240 = [0, 0, 0, 0] \<and>
   pack_I 0x63825363 = [0x63, 0x82, 0x53, 0x63] \<and>
   parse_dhcp_body ascii_decode bad_cookie_packet = Inr (1, mac_01, xid_1, None) \<and>
   parse_dhcp_packet ascii_decode discover_packet = (1, mac_01, xid_1, None)"
proof -
  have "slice bad_cookie_packet 236 240 = [0, 0, 0, 0]"
    by (simp add: bad_cookie_packet_bytes slice_def length_xid_1 length_mac_01)
  moreover have "pack_I 0x63825363 = [0x63, 0x82, 0x53, 0x63]"
    by (simp add: pack_I_def)
  moreover have "parse_dhcp_body ascii_decode bad_cookie_packet = Inr (1, mac_01, xid_1, None)"
    by (simp add: parse_dhcp_body_def bad_cookie_packet_bytes slice_def length_xid_1
        length_mac_01 parse_discover_options)
  moreover have "parse_dhcp_packet ascii_decode discover_packet = (1, mac_01, xid_1, None)"
    unfolding discover_packet_def
    by (rule parse_client_packet [OF length_xid_1 length_mac_01 parse_discover_options])
  ultimately show ?thesis by blast
qed

subsection \<open>The option walk\<close>

text \<open>
  Claim C5, as the code has it. On an options region made of well-formed options and
  ended by tag 255, the parser reads after every tag (tag 0 included: it is not
  treated as a pad byte without length) a one-byte length \<open>L\<close> and skips \<open>L\<close> value
  bytes; it stops at tag 255 and ignores whatever follows it. The message type is then
  the first value byte of the last option 53 and the hostname the decoded value of the
  last option 12.
\<close>

theorem options_walk:
  assumes "list_all wf_option os"
  shows "parse_options dec (encode_options os @ rest) 0 mt hn =
           Inr (foldl (apply_option dec) (mt, hn) os)"
  using parse_walk [OF assms, of dec "[]" rest mt hn]
  by (simp add: encode_options_def)

lemma ascii_hi: "ascii_decode [104, 105] = ''hi''"
  by code_simp

theorem options_walk_witness:
  "list_all wf_option [(0, [53, 1]), (53, [1]), (12, [104, 105])] \<and>
   encode_options [(0, [53, 1]), (53, [1]), (12, [104, 105])] @ [7, 7] =
     [0, 2, 53, 1, 53, 1, 1, 12, 2, 104, 105, 255, 7, 7] \<and>
   parse_options ascii_decode [0, 2, 53, 1, 53, 1, 1, 12, 2, 104, 105, 255, 7, 7] 0 0 None =
     Inr (1, Some ''hi'')"
proof -
  have wf: "list_all wf_option [(0, [53, 1]), (53, [1]), (12, [104, 105])]"
    by (simp add: wf_option_def)
  have enc: "encode_options [(0, [53, 1]), (53, [1]), (12, [104, 105])] @ [7, 7] =
     [0, 2, 53, 1, 53, 1, 1, 12, 2, 104, 105, 255, 7, 7]"
    by (simp add: encode_options_def tlv_def)
  from options_walk [OF wf, of ascii_decode "[7, 7]" 0 None]
  have "parse_options ascii_decode [0, 2, 53, 1, 53, 1, 1, 12, 2, 104, 105, 255, 7, 7] 0 0 None =
     Inr (1, Some ''hi'')"
    unfolding enc by (simp add: apply_option_def ascii_hi)
  with wf enc show ?thesis by blast
qed

theorem padding_counterexample:
  "padded_packet = client_header xid_1 mac_01 @ [0] @ [53, 1, 1, 255] \<and>
   discover_packet = client_header xid_1 mac_01 @ [53, 1, 1, 255] \<and>
   parse_dhcp_packet ascii_decode discover_packet = (1, mac_01, xid_1, None) \<and>
   parse_dhcp_packet ascii_decode padded_packet = (0, mac_01, xid_1, None)"
proof -
  have "parse_options ascii_decode [0, 53, 1, 1, 255] 0 0 None = Inr (0, None)"
    by (simp add: parse_options.simps read_option_def)
  from parse_client_packet [OF length_xid_1 length_mac_01 this]
  have "parse_dhcp_packet ascii_decode padded_packet = (0, mac_01, xid_1, None)"
    by (simp add: padded_packet_def)
  moreover have "parse_dhcp_packet ascii_decode discover_packet = (1, mac_01, xid_1, None)"
    unfolding discover_packet_def
    by (rule parse_client_packet [OF length_xid_1 length_mac_01 parse_discover_options])
  ultimately show ?thesis
    by (simp add: padded_packet_def discover_packet_def)
qed

subsection \<open>The fields the parser returns\<close>

text \<open>
  Claim C6, as the code has it. For a datagram made of 240 header bytes and a
  well-formed options region, the parser returns four fields: the message type (first
  value byte of the last option 53, or 0 when there is none), the hardware address
  (bytes 28..34), the transaction id (bytes 4..8) and the hostname (decoded value of
  the last option 12, if present). The requested address (option 50) and the server
  identifier (option 54) are not returned.
\<close>

theorem parse_returns_fields:
  assumes "length header = 240" and "list_all wf_option os"
  shows "parse_dhcp_packet dec (header @ encode_options os @ rest) =
           (case last_option 53 os of None \<Rightarrow> 0 | Some v \<Rightarrow> first_byte v,
            slice header 28 34,
            slice header 4 8,
            case last_option 12 os of None \<Rightarrow> None | Some v \<Rightarrow> Some (dec v))"
proof -
  have "parse_options dec (encode_options os @ rest) 0 0 None =
          Inr (foldl (apply_option dec) (0, None) os)"
    using parse_walk [OF assms(2), of dec "[]" rest 0 None]
    by (simp add: encode_options_def)
  then show ?thesis
    using assms(1)
    by (simp add: parse_dhcp_packet_def parse_dhcp_body_def slice_def
        foldl_apply_option [OF assms(2)])
qed

theorem parse_returns_fields_witness:
  "length (client_header xid_1 mac_01) = 240 \<and>
   list_all wf_option [(53, [3]), (12, [104, 105]), (50, [192, 168, 1, 2])] \<and>
   parse_dhcp_packet ascii_decode
     (client_header xid_1 mac_01 @
      encode_options [(53, [3]), (12, [104, 105]), (50, [192, 168, 1, 2])] @ []) =
     (3, mac_01, xid_1, Some ''hi'')"
proof -
  note hdr = client_header_fields [OF length_xid_1 length_mac_01]
  have wf: "list_all wf_option [(53, [3]), (12, [104, 105]), (50, [192, 168, 1, 2])]"
    by (simp add: wf_option_def)
  from parse_returns_fields [OF hdr(1) wf, of ascii_decode "[]"]
  have "parse_dhcp_packet ascii_decode
     (client_header xid_1 mac_01 @
      encode_options [(53, [3]), (12, [104, 105]), (50, [192, 168, 1, 2])] @ []) =
     (3, mac_01, xid_1, Some ''hi'')"
    using hdr(2,3) [of "[]"]
    by (simp add: last_option_def first_byte_def ascii_hi)
  with hdr(1) wf show ?thesis by blast
qed

theorem requested_ip_counterexample:
  "parse_dhcp_packet ascii_decode request_for_2 = (3, mac_01, xid_1, None) \<and>
   parse_dhcp_packet ascii_decode request_for_9 = (3, mac_01, xid_1, None) \<and>
   last_option 50 [(53, [3]), (50, [192, 168, 1, 2]), (54, [192, 168, 1, 1])] =
     Some [192, 168, 1, 2] \<and>
   last_option 50 [(53, [3]), (50, [192, 168, 1, 9]), (54, [10, 0, 0, 1])] =
     Some [192, 168, 1, 9]"
proof -
  have a: "parse_options ascii_decode
          (encode_options [(53, [3]), (50, [192, 168, 1, 2]), (54, [192, 168, 1, 1])]) 0 0 None =
        Inr (3, None)"
    using parse_walk [of "[(53, [3]), (50, [192, 168, 1, 2]), (54, [192, 168, 1, 1])]"
        ascii_decode "[]" "[]" 0 None]
    by (simp add: encode_options_def wf_option_def apply_option_def)
  have b: "parse_options ascii_decode
          (encode_options [(53, [3]), (50, [192, 168, 1, 9]), (54, [10, 0, 0, 1])]) 0 0 None =
        Inr (3, None)"
    using parse_walk [of "[(53, [3]), (50, [192, 168, 1, 9]), (54, [10, 0, 0, 1])]"
        ascii_decode "[]" "[]" 0 None]
    by (simp add: encode_options_def wf_option_def apply_option_def)
  show ?thesis
    using parse_client_packet [OF length_xid_1 length_mac_01 a]
      parse_client_packet [OF length_xid_1 length_mac_01 b]
    by (simp add: request_for_2_def request_for_9_def last_option_def)
qed

subsection \<open>The reply datagram\<close>

lemma inet_aton_length: "inet_aton s = Some bs \<Longrightarrow> length bs = 4"
  by (auto simp: inet_aton_def split: list.splits option.splits)

text \<open>
  Claim C7. For a message type that fits a byte, a 4-byte transaction id, a 6-byte
  hardware address and an address in dotted-quad text, the configured server emits: op 2,
  htype 1, hlen 6, hops 0; the transaction id at bytes 4..8; zero secs, flags and
  ciaddr; the address as yiaddr at 16..20; the server address 192.168.1.1 as siaddr at
  20..24; zero giaddr; the hardware address followed by 10 zero bytes as chaddr; 64 zero
  bytes of sname and 128 of file; the magic cookie at 236..240; then the options 53,
  54, 1, 3, 6, 42 and 51, each with its length byte, option 51 being the lease seconds
  3600 as four bytes, most significant first; then tag 255.
\<close>

theorem create_dhcp_packet_layout:
  assumes "0 \<le> message_type" and "message_type < 256"
    and "length transaction_id = 4" and "length client_mac = 6"
    and "inet_aton your_ip = Some yiaddr"
  shows "create_dhcp_packet DHCPServer_init message_type client_mac transaction_id your_ip =
           [2, 1, 6, 0] @ transaction_id @ replicate 8 0 @
           yiaddr @ [192, 168, 1, 1] @ replicate 4 0 @
           client_mac @ replicate 10 0 @ replicate 64 0 @ replicate 128 0 @
           [0x63, 0x82, 0x53, 0x63] @
           [53, 1, word_of_int message_type] @
           [54, 4, 192, 168, 1, 1] @
           [1, 4, 255, 255, 255, 0] @
           [3, 4, 192, 168, 1, 1] @
           [6, 4, 8, 8, 8, 8] @
           [42, 4, 8, 8, 8, 8] @
           [51, 4, 0, 0, 14, 16] @
           [255] \<and>
         inet_aton (server_ip DHCPServer_init) = Some [192, 168, 1, 1] \<and>
         pack_I (lease_time DHCPServer_init) = [0, 0, 14, 16]"
proof -
  have y: "length yiaddr = 4"
    by (rule inet_aton_length [OF assms(5)])
  have pad: "replicate 202 (0 :: byte) = replicate 10 0 @ replicate 64 0 @ replicate 128 0"
    by (simp flip: replicate_add)
  have hdr: "set_slice (set_slice (set_slice (set_slice (set_slice
               ((replicate 240 0)[0 := 2, 1 := 1, 2 := 6, 3 := 0]) 4 8 transaction_id)
               16 20 yiaddr) 20 24 [192, 168, 1, 1]) 28 34 client_mac) 236 240
               [0x63, 0x82, 0x53, 0x63] =
             [2, 1, 6, 0] @ transaction_id @ replicate 8 0 @
             yiaddr @ [192, 168, 1, 1] @ replicate 4 0 @
             client_mac @ replicate 202 0 @ [0x63, 0x82, 0x53, 0x63]"
    unfolding fixed_fields using assms(3,4) y by (simp add: set_slice_def)
  have magic: "pack_I 0x63825363 = [0x63, 0x82, 0x53, 0x63]"
    by (simp add: pack_I_def)
  have "create_dhcp_body DHCPServer_init message_type client_mac transaction_id your_ip =
          Inr (([2, 1, 6, 0] @ transaction_id @ replicate 8 0 @
             yiaddr @ [192, 168, 1, 1] @ replicate 4 0 @
             client_mac @ replicate 202 0 @ [0x63, 0x82, 0x53, 0x63]) @
             [53, 1, word_of_int message_type] @ [54, 4] @ [192, 168, 1, 1] @
             [1, 4, 255, 255, 255, 0, 3, 4, 192, 168, 1, 1, 6, 4, 8, 8, 8, 8,
              42, 4, 8, 8, 8, 8, 51, 4, 0, 0, 14, 16] @ [255])"
    unfolding create_dhcp_body_def Let_def assms(5) inet_aton_server extend_options_init
      magic option.case sum.case hdr
    using assms(1,2) by simp
  then have "create_dhcp_packet DHCPServer_init message_type client_mac transaction_id your_ip =
           [2, 1, 6, 0] @ transaction_id @ replicate 8 0 @
           yiaddr @ [192, 168, 1, 1] @ replicate 4 0 @
           client_mac @ replicate 10 0 @ replicate 64 0 @ replicate 128 0 @
           [0x63, 0x82, 0x53, 0x63] @
           [53, 1, word_of_int message_type] @
           [54, 4, 192, 168, 1, 1] @
           [1, 4, 255, 255, 255, 0] @
           [3, 4, 192, 168, 1, 1] @
           [6, 4, 8, 8, 8, 8] @
           [42, 4, 8, 8, 8, 8] @
           [51, 4, 0, 0, 14, 16] @
           [255]"
    by (simp add: create_dhcp_packet_def pad)
  moreover have "pack_I (lease_time DHCPServer_init) = [0, 0, 14, 16]"
    by (simp add: DHCPServer_init_def pack_I_def)
  ultimately show ?thesis
    using inet_aton_server by blast
qed

theorem create_dhcp_packet_layout_witness:
  "(0 :: int) \<le> DHCPOFFER \<and> DHCPOFFER < (256 :: int) \<and>
   length xid_1 = 4 \<and> length mac_01 = 6 \<and>
   inet_aton ''192.168.1.2'' = Some [192, 168, 1, 2] \<and>
   create_dhcp_packet DHCPServer_init DHCPOFFER mac_01 xid_1 ''192.168.1.2'' =
     [2, 1, 6, 0] @ [0x12, 0x34, 0x56, 0x78] @ replicate 8 0 @
     [192, 168, 1, 2] @ [192, 168, 1, 1] @ replicate 4 0 @
     [0xaa, 0xbb, 0xcc, 0xdd, 0xee, 0x01] @ replicate 10 0 @ replicate 64 0 @ replicate 128 0 @
     [0x63, 0x82, 0x53, 0x63] @
     [53, 1, 2] @ [54, 4, 192, 168, 1, 1] @ [1, 4, 255, 255, 255, 0] @
     [3, 4, 192, 168, 1, 1] @ [6, 4, 8, 8, 8, 8] @ [42, 4, 8, 8, 8, 8] @
     [51, 4, 0, 0, 14, 16] @ [255]"
proof -
  have h1: "(0 :: int) \<le> DHCPOFFER" and h2: "DHCPOFFER < (256 :: int)" by simp_all
  from create_dhcp_packet_layout [OF h1 h2 length_xid_1 length_mac_01 inet_aton_2]
  have "create_dhcp_packet DHCPServer_init DHCPOFFER mac_01 xid_1 ''192.168.1.2'' =
     [2, 1, 6, 0] @ [0x12, 0x34, 0x56, 0x78] @ replicate 8 0 @
     [192, 168, 1, 2] @ [192, 168, 1, 1] @ replicate 4 0 @
     [0xaa, 0xbb, 0xcc, 0xdd, 0xee, 0x01] @ replicate 10 0 @ replicate 64 0 @ replicate 128 0 @
     [0x63, 0x82, 0x53, 0x63] @
     [53, 1, 2] @ [54, 4, 192, 168, 1, 1] @ [1, 4, 255, 255, 255, 0] @
     [3, 4, 192, 168, 1, 1] @ [6, 4, 8, 8, 8, 8] @ [42, 4, 8, 8, 8, 8] @
     [51, 4, 0, 0, 14, 16] @ [255]"
    by (simp add: xid_1_def mac_01_def)
  with h1 h2 length_xid_1 length_mac_01 inet_aton_2 show ?thesis by blast
qed

end
